theory Spec2Isabelle
  imports Complex_Main "HOL-Library.Log_Nat"
begin

section \<open>Mortality predictor: a shallow embedding of main.py\<close>

text \<open>
  The development follows \<^verbatim>\<open>src/main.py\<close>: the static life table and its lookup
  (\<^verbatim>\<open>get_base_life_expectancy\<close>), the modifier engine
  (\<^verbatim>\<open>apply_lifestyle_modifiers\<close>), \<^verbatim>\<open>years_between\<close> and the request
  handler \<^verbatim>\<open>predict\<close>. The current date, which \<^verbatim>\<open>predict\<close> reads with
  \<^verbatim>\<open>date.today()\<close>, is a parameter of the model.
\<close>

subsection \<open>Python floats\<close>

text \<open>
  A Python float is an IEEE 754 binary64 number. A finite one is a rational, so the finite
  floats are modelled as the rationals that \<open>double\<close> leaves unchanged, and every
  arithmetic operation of the source is the exact operation followed by \<open>double\<close>,
  rounding to the nearest number with a 53-bit significand, ties to the even significand.
  The exponent is not bounded in the model: the magnitudes that \<^verbatim>\<open>predict\<close> computes
  lie between \<open>1/400\<close> and \<open>4 * 10^6\<close> (or are zero), far from overflow and from the
  subnormal range. The sign of zero is not modelled; no operation of the source depends
  on it.

  The field \<^verbatim>\<open>bmi\<close> is the one float that comes from the request unchanged, so it can
  also be an infinity or a NaN (the request validation accepts them); it has the type
  \<open>pyfloat\<close>. The source only compares it.
\<close>

datatype pyfloat = Finite rat | PosInf | NegInf | NaN

text \<open>\<^verbatim>\<open>a < b\<close> and \<^verbatim>\<open>a <= b\<close> on floats: every comparison with a NaN is false.\<close>

fun float_lt :: "pyfloat \<Rightarrow> pyfloat \<Rightarrow> bool" where
  "float_lt NaN _ = False"
| "float_lt _ NaN = False"
| "float_lt (Finite x) (Finite y) = (x < y)"
| "float_lt (Finite _) PosInf = True"
| "float_lt (Finite _) NegInf = False"
| "float_lt PosInf _ = False"
| "float_lt NegInf NegInf = False"
| "float_lt NegInf _ = True"

fun float_le :: "pyfloat \<Rightarrow> pyfloat \<Rightarrow> bool" where
  "float_le NaN _ = False"
| "float_le _ NaN = False"
| "float_le (Finite x) (Finite y) = (x \<le> y)"
| "float_le (Finite _) PosInf = True"
| "float_le (Finite _) NegInf = False"
| "float_le PosInf PosInf = True"
| "float_le PosInf _ = False"
| "float_le NegInf _ = True"

text \<open>Rounding to the nearest integer, ties to even: Python's \<^verbatim>\<open>round(x)\<close>.\<close>

definition rne :: "rat \<Rightarrow> int" where
  "rne x = (let f = \<lfloor>x\<rfloor>; d = x - of_int f
            in if d < 1/2 then f else if 1/2 < d then f + 1
               else if even f then f else f + 1)"

text \<open>The binary exponent of a non-zero rational: \<open>2 powi expo x \<le> \<bar>x\<bar> < 2 powi (expo x + 1)\<close>.\<close>

definition expo :: "rat \<Rightarrow> int" where
  "expo x = (let (p, q) = quotient_of \<bar>x\<bar>; k = bitlen p - bitlen q
             in if 2 powi k \<le> \<bar>x\<bar> then k else k - 1)"

definition double :: "rat \<Rightarrow> rat" where
  "double x = (if x = 0 then 0
               else let s = 2 powi (52 - expo x) in of_int (rne (x * s)) / s)"

text \<open>
  \<^verbatim>\<open>round(x, 2)\<close> on a float: the exact value of \<open>x\<close> is rounded to two decimals,
  ties to even, and the decimal is converted back to the nearest float.
\<close>

definition py_round2 :: "rat \<Rightarrow> rat" where
  "py_round2 x = double (of_int (rne (x * 100)) / 100)"

text \<open>\<^verbatim>\<open>max(a, b)\<close>: the second argument wins only when it is strictly greater.\<close>

definition py_max :: "rat \<Rightarrow> rat \<Rightarrow> rat" where
  "py_max a b = (if a < b then b else a)"

subsection \<open>Python strings\<close>

text \<open>
  A string is a list of characters, read as the code points U+0000 to U+00FF.
  \<^verbatim>\<open>str.strip()\<close> removes the white space of both ends and \<^verbatim>\<open>str.lower()\<close>
  maps each upper-case letter to its lower-case letter, as Python does on this range.
\<close>

definition isspace :: "char \<Rightarrow> bool" where
  "isspace c = ((of_char c :: nat) \<in> {9, 10, 11, 12, 13, 28, 29, 30, 31, 32, 133, 160})"

definition lower_char :: "char \<Rightarrow> char" where
  "lower_char c = (let n = (of_char c :: nat)
                   in if (65 \<le> n \<and> n \<le> 90) \<or> (192 \<le> n \<and> n \<le> 214) \<or> (216 \<le> n \<and> n \<le> 222)
                      then char_of (n + 32) else c)"

definition strip :: "string \<Rightarrow> string" where
  "strip s = rev (dropWhile isspace (rev (dropWhile isspace s)))"

definition lower :: "string \<Rightarrow> string" where
  "lower s = map lower_char s"

subsection \<open>Errors\<close>

datatype error =
    HTTPException nat string
  | KeyError string
  | OverflowError

subsection \<open>The life table and its lookup\<close>

definition LIFE_TABLE :: "string \<rightharpoonup> (string \<rightharpoonup> rat)" where
  "LIFE_TABLE = map_of
     [(''usa'', map_of [(''male'', double (745/10)), (''female'', double (802/10))]),
      (''united states'', map_of [(''male'', double (745/10)), (''female'', double (802/10))]),
      (''uk'', map_of [(''male'', double 79), (''female'', double (829/10))]),
      (''united kingdom'', map_of [(''male'', double 79), (''female'', double (829/10))]),
      (''canada'', map_of [(''male'', double 80), (''female'', double 84)]),
      (''australia'', map_of [(''male'', double (812/10)), (''female'', double (853/10))]),
      (''germany'', map_of [(''male'', double (787/10)), (''female'', double (834/10))]),
      (''india'', map_of [(''male'', double (672/10)), (''female'', double (695/10))]),
      (''japan'', map_of [(''male'', double (815/10)), (''female'', double (875/10))]),
      (''france'', map_of [(''male'', double (794/10)), (''female'', double (853/10))])]"

definition global_avg :: "string \<rightharpoonup> rat" where
  "global_avg = map_of [(''male'', double 70), (''female'', double 75)]"

text \<open>\<^verbatim>\<open>d[k]\<close> raises \<^verbatim>\<open>KeyError\<close> on a missing key.\<close>

definition dict_item :: "(string \<rightharpoonup> 'v) \<Rightarrow> string \<Rightarrow> error + 'v" where
  "dict_item d k = (case d k of None \<Rightarrow> Inl (KeyError k) | Some v \<Rightarrow> Inr v)"

text \<open>\<^verbatim>\<open>d.get(k, default)\<close>.\<close>

definition dict_get :: "('k \<rightharpoonup> 'v) \<Rightarrow> 'k \<Rightarrow> 'v \<Rightarrow> 'v" where
  "dict_get d k dflt = (case d k of None \<Rightarrow> dflt | Some v \<Rightarrow> v)"

definition get_base_life_expectancy :: "string \<Rightarrow> string \<Rightarrow> error + rat" where
  "get_base_life_expectancy country sex =
     (let key = lower (strip country)
      in case LIFE_TABLE key of
           None \<Rightarrow> dict_item global_avg sex
         | Some row \<Rightarrow> dict_item row sex)"

subsection \<open>The modifier engine\<close>

definition smoking_map :: "string \<rightharpoonup> rat" where
  "smoking_map = map_of
     [(''none'', 3/2), (''former'', -1), (''light'', -2), (''moderate'', -4), (''heavy'', -7)]"

definition alcohol_map :: "string \<rightharpoonup> rat" where
  "alcohol_map = map_of [(''none'', 1/2), (''moderate'', 0), (''heavy'', -3)]"

definition exercise_map :: "string \<rightharpoonup> rat" where
  "exercise_map = map_of
     [(''sedentary'', -2), (''light'', -1/2), (''moderate'', 1), (''high'', 2)]"

text \<open>
  The dictionary \<^verbatim>\<open>adjustments\<close> and the running sum \<^verbatim>\<open>adjusted\<close> are threaded
  through the four steps. Each \<^verbatim>\<open>adjusted += adjustments[k]\<close> reads back the value stored
  on the line before, and is a float addition.
\<close>

definition apply_lifestyle_modifiers ::
  "rat \<Rightarrow> pyfloat \<Rightarrow> string \<Rightarrow> string \<Rightarrow> string \<Rightarrow> rat \<times> (string \<rightharpoonup> rat)" where
  "apply_lifestyle_modifiers base bmi smoking_status alcohol_use exercise_level =
     (let adjustments = Map.empty;
          adjusted = base;
          v = (if float_lt bmi (Finite (37/2)) then -2
               else if float_le (Finite (37/2)) bmi \<and> float_lt bmi (Finite 25) then 1/2
               else if float_le (Finite 25) bmi \<and> float_lt bmi (Finite 30) then -1/2
               else if float_le (Finite 30) bmi \<and> float_lt bmi (Finite 35) then -2
               else -4);
          adjustments = adjustments(''bmi'' \<mapsto> v);
          adjusted = double (adjusted + v);
          v = dict_get smoking_map smoking_status (-2);
          adjustments = adjustments(''smoking'' \<mapsto> v);
          adjusted = double (adjusted + v);
          v = dict_get alcohol_map alcohol_use 0;
          adjustments = adjustments(''alcohol'' \<mapsto> v);
          adjusted = double (adjusted + v);
          v = dict_get exercise_map exercise_level 0;
          adjustments = adjustments(''exercise'' \<mapsto> v);
          adjusted = double (adjusted + v)
      in (adjusted, adjustments))"

text \<open>
  The bucket table of the specification, in its own words: the modifiers of those of the five
  half-open buckets \<open><18.5\<close>, \<open>[18.5,25)\<close>, \<open>[25,30)\<close>, \<open>[30,35)\<close>,
  \<open>\<ge>35\<close> that contain the value. It is compared below with the \<^verbatim>\<open>if\<close> chain of
  \<^verbatim>\<open>apply_lifestyle_modifiers\<close>.
\<close>

definition spec_bmi_buckets :: "pyfloat \<Rightarrow> rat list" where
  "spec_bmi_buckets b =
     (if float_lt b (Finite (37/2)) then [-2] else [])
     @ (if float_le (Finite (37/2)) b \<and> float_lt b (Finite 25) then [1/2] else [])
     @ (if float_le (Finite 25) b \<and> float_lt b (Finite 30) then [-1/2] else [])
     @ (if float_le (Finite 30) b \<and> float_lt b (Finite 35) then [-2] else [])
     @ (if float_le (Finite 35) b then [-4] else [])"

subsection \<open>Dates\<close>

text \<open>
  A \<^verbatim>\<open>datetime.date\<close> is represented by its proleptic Gregorian ordinal
  (\<^verbatim>\<open>date.toordinal()\<close>, day 1 is 0001-01-01): Python compares dates, subtracts them
  and adds a \<^verbatim>\<open>timedelta\<close> to them through this number. The dates of Python are the
  ordinals from \<open>1\<close> to \<open>MAXORDINAL\<close> (9999-12-31); adding a \<^verbatim>\<open>timedelta\<close> that
  leaves this range raises \<^verbatim>\<open>OverflowError\<close>. The conversions between an ordinal
  and year, month and day follow the functions \<^verbatim>\<open>_ymd2ord\<close> and \<^verbatim>\<open>_ord2ymd\<close>
  of the standard library.
\<close>

type_synonym date = int

definition MAXORDINAL :: int where
  "MAXORDINAL = 3652059"

definition date_valid :: "date \<Rightarrow> bool" where
  "date_valid d = (1 \<le> d \<and> d \<le> MAXORDINAL)"

definition date_add_days :: "date \<Rightarrow> int \<Rightarrow> error + date" where
  "date_add_days d n = (let r = d + n in if 1 \<le> r \<and> r \<le> MAXORDINAL then Inr r else Inl OverflowError)"

definition is_leap :: "int \<Rightarrow> bool" where
  "is_leap year = (year mod 4 = 0 \<and> (year mod 100 \<noteq> 0 \<or> year mod 400 = 0))"

definition days_before_year :: "int \<Rightarrow> int" where
  "days_before_year year = (let y = year - 1 in y * 365 + y div 4 - y div 100 + y div 400)"

definition DAYS_IN_MONTH :: "int list" where
  "DAYS_IN_MONTH = [-1, 31, 28, 31, 30, 31, 30, 31, 31, 30, 31, 30, 31]"

definition DAYS_BEFORE_MONTH :: "int list" where
  "DAYS_BEFORE_MONTH = [-1, 0, 31, 59, 90, 120, 151, 181, 212, 243, 273, 304, 334]"

definition days_before_month :: "int \<Rightarrow> int \<Rightarrow> int" where
  "days_before_month year month =
     DAYS_BEFORE_MONTH ! nat month + (if 2 < month \<and> is_leap year then 1 else 0)"

definition ymd2ord :: "int \<Rightarrow> int \<Rightarrow> int \<Rightarrow> date" where
  "ymd2ord year month day = days_before_year year + days_before_month year month + day"

definition ord2ymd :: "date \<Rightarrow> int \<times> int \<times> int" where
  "ord2ymd n0 =
     (let n = n0 - 1;
          n400 = n div 146097; n = n mod 146097;
          year = n400 * 400 + 1;
          n100 = n div 36524; n = n mod 36524;
          n4 = n div 1461; n = n mod 1461;
          n1 = n div 365; n = n mod 365;
          year = year + n100 * 100 + n4 * 4 + n1
      in if n1 = 4 \<or> n100 = 4 then (year - 1, 12, 31)
         else let leapyear = (n1 = 3 \<and> (n4 \<noteq> 24 \<or> n100 = 3));
                  month = (n + 50) div 32;
                  preceding = DAYS_BEFORE_MONTH ! nat month + (if 2 < month \<and> leapyear then 1 else 0);
                  (month, preceding) =
                     (if n < preceding
                      then (month - 1,
                            preceding - (DAYS_IN_MONTH ! nat (month - 1)
                                         + (if month - 1 = 2 \<and> leapyear then 1 else 0)))
                      else (month, preceding))
              in (year, month, n - preceding + 1))"

subsection \<open>The request handler\<close>

record PredictionRequest =
  dob :: date
  sex :: string
  country :: string
  bmi :: pyfloat
  smoking_status :: string
  alcohol_use :: string
  exercise_level :: string

record PredictionResponse =
  estimated_death_date :: date
  base_life_expectancy_years :: rat
  adjusted_life_expectancy_years :: rat
  current_age_years :: rat
  modifiers_applied :: "string \<rightharpoonup> rat"

text \<open>
  The request model restricts the four categorical fields to their literals and the date
  of birth to a date; a request that reaches \<^verbatim>\<open>predict\<close> satisfies \<open>request_valid\<close>.
\<close>

definition request_valid :: "PredictionRequest \<Rightarrow> bool" where
  "request_valid req =
     (date_valid (dob req)
      \<and> sex req \<in> set [''male'', ''female'']
      \<and> smoking_status req \<in> set [''none'', ''former'', ''light'', ''moderate'', ''heavy'']
      \<and> alcohol_use req \<in> set [''none'', ''moderate'', ''heavy'']
      \<and> exercise_level req \<in> set [''sedentary'', ''light'', ''moderate'', ''high''])"

definition DAYS_PER_YEAR :: rat where
  "DAYS_PER_YEAR = double (3652425/10000)"

text \<open>\<^verbatim>\<open>(d2 - d1).days / 365.2425\<close>: the day count is converted to a float and divided.\<close>

definition years_between :: "date \<Rightarrow> date \<Rightarrow> rat" where
  "years_between d1 d2 = double (double (of_int (d2 - d1)) / DAYS_PER_YEAR)"

definition predict :: "date \<Rightarrow> PredictionRequest \<Rightarrow> error + PredictionResponse" where
  "predict today req =
     (if today < dob req
      then Inl (HTTPException 400 ''Date of birth cannot be in the future'')
      else case get_base_life_expectancy (country req) (sex req) of
             Inl e \<Rightarrow> Inl e
           | Inr base_expectancy \<Rightarrow>
               let (adjusted_expectancy, modifiers) =
                     apply_lifestyle_modifiers base_expectancy (bmi req) (smoking_status req)
                       (alcohol_use req) (exercise_level req);
                   current_age = py_max 0 (years_between (dob req) today);
                   minimal_future = 1/4;
                   lifespan_years = py_max adjusted_expectancy (double (current_age + minimal_future));
                   estimated_days = rne (double (lifespan_years * DAYS_PER_YEAR))
               in (case date_add_days (dob req) estimated_days of
                     Inl e \<Rightarrow> Inl e
                   | Inr estimated_date \<Rightarrow>
                       Inr \<lparr>estimated_death_date = estimated_date,
                            base_life_expectancy_years = py_round2 base_expectancy,
                            adjusted_life_expectancy_years = py_round2 lifespan_years,
                            current_age_years = py_round2 current_age,
                            modifiers_applied = modifiers\<rparr>))"

section \<open>String normalisation\<close>








section \<open>The lookup resolver\<close>

lemma double_70: "double 70 = 70" by code_simp
lemma double_75: "double 75 = 75" by code_simp

lemma get_base_unknown:
  "LIFE_TABLE (lower (strip c)) = None \<Longrightarrow>
   get_base_life_expectancy c sx = dict_item global_avg sx"
  by (simp add: get_base_life_expectancy_def)

lemma global_avg_male: "dict_item global_avg ''male'' = Inr 70"
  by (simp add: dict_item_def global_avg_def double_70)

lemma global_avg_female: "dict_item global_avg ''female'' = Inr 75"
  by (simp add: dict_item_def global_avg_def double_75)

text \<open>
  Claim C4. When the trimmed, lower-cased country is not a key of the life table,
  \<^verbatim>\<open>get_base_life_expectancy\<close> returns a value and no error: exactly 70.0 for
  \<^verbatim>\<open>male\<close> and exactly 75.0 for \<^verbatim>\<open>female\<close>. The function reads nothing but the
  country and the sex, so no other field of the request can change the result.
\<close>

theorem unknown_country_fallback:
  "lower (strip c) \<notin> dom LIFE_TABLE \<Longrightarrow>
     get_base_life_expectancy c ''male'' = Inr 70
   \<and> get_base_life_expectancy c ''female'' = Inr 75"
  by (simp add: get_base_unknown global_avg_male global_avg_female domIff)

lemma atlantis_key: "lower (strip ''Atlantis'') = ''atlantis''" by code_simp

lemma atlantis_unknown: "''atlantis'' \<notin> dom LIFE_TABLE"
  by (simp add: LIFE_TABLE_def domIff)

theorem unknown_country_fallback_witness:
  "lower (strip ''Atlantis'') \<notin> dom LIFE_TABLE
   \<and> get_base_life_expectancy ''Atlantis'' ''male'' = Inr 70
   \<and> get_base_life_expectancy ''Atlantis'' ''female'' = Inr 75"
proof -
  have h: "lower (strip ''Atlantis'') \<notin> dom LIFE_TABLE"
    by (simp only: atlantis_key atlantis_unknown not_False_eq_True)
  from unknown_country_fallback[OF h] h show ?thesis by simp
qed

lemma key_usa: "lower (strip ''usa'') = ''usa''" by code_simp



section \<open>The modifier engine\<close>

lemma modifiers_bmi:
  "snd (apply_lifestyle_modifiers base b s a e) ''bmi'' =
     Some (if float_lt b (Finite (37/2)) then -2
           else if float_le (Finite (37/2)) b \<and> float_lt b (Finite 25) then 1/2
           else if float_le (Finite 25) b \<and> float_lt b (Finite 30) then -1/2
           else if float_le (Finite 30) b \<and> float_lt b (Finite 35) then -2
           else -4)"
  by (simp add: apply_lifestyle_modifiers_def Let_def)

lemma modifiers_smoking:
  "snd (apply_lifestyle_modifiers base b s a e) ''smoking'' = Some (dict_get smoking_map s (-2))"
  by (simp add: apply_lifestyle_modifiers_def Let_def)

lemma modifiers_alcohol:
  "snd (apply_lifestyle_modifiers base b s a e) ''alcohol'' = Some (dict_get alcohol_map a 0)"
  by (simp add: apply_lifestyle_modifiers_def Let_def)

lemma modifiers_exercise:
  "snd (apply_lifestyle_modifiers base b s a e) ''exercise'' = Some (dict_get exercise_map e 0)"
  by (simp add: apply_lifestyle_modifiers_def Let_def)

lemma modifiers_dom:
  "dom (snd (apply_lifestyle_modifiers base b s a e)) = {''bmi'', ''smoking'', ''alcohol'', ''exercise''}"
  by (auto simp add: apply_lifestyle_modifiers_def Let_def)






lemma bmi_cases:
  "b \<noteq> NaN \<Longrightarrow> spec_bmi_buckets b =
     [if float_lt b (Finite (37/2)) then -2
           else if float_le (Finite (37/2)) b \<and> float_lt b (Finite 25) then 1/2
           else if float_le (Finite 25) b \<and> float_lt b (Finite 30) then -1/2
           else if float_le (Finite 30) b \<and> float_lt b (Finite 35) then -2
           else -4]"
  by (cases b) (auto simp: spec_bmi_buckets_def)

text \<open>
  Claim C5, as stated, at \<^verbatim>\<open>bmi = NaN\<close>: every comparison is false, so the value lies in
  none of the five buckets, and the \<^verbatim>\<open>else\<close> branch of the chain gives \<open>-4.0\<close>.
\<close>

theorem bmi_nan_in_no_bucket:
  "spec_bmi_buckets NaN = []
   \<and> snd (apply_lifestyle_modifiers 70 NaN ''none'' ''none'' ''moderate'') ''bmi'' = Some (-4)
   \<and> map Some (spec_bmi_buckets NaN)
       \<noteq> [snd (apply_lifestyle_modifiers 70 NaN ''none'' ''none'' ''moderate'') ''bmi'']"
  by (simp add: spec_bmi_buckets_def modifiers_bmi)

text \<open>
  Claim C5, amended. For every \<^verbatim>\<open>bmi\<close> that is not a NaN (an infinity included) exactly
  one of the five half-open buckets contains it and its modifier is the one stored under
  \<^verbatim>\<open>bmi\<close>; the boundary values 18.5, 25, 30 and 35 fall into the upper bucket. A NaN
  takes the last branch, \<open>-4.0\<close>.
\<close>

theorem bmi_modifier_buckets:
  "(b \<noteq> NaN \<longrightarrow>
      map Some (spec_bmi_buckets b) = [snd (apply_lifestyle_modifiers base b s a e) ''bmi''])
   \<and> snd (apply_lifestyle_modifiers base (Finite (37/2)) s a e) ''bmi'' = Some (1/2)
   \<and> snd (apply_lifestyle_modifiers base (Finite 25) s a e) ''bmi'' = Some (-1/2)
   \<and> snd (apply_lifestyle_modifiers base (Finite 30) s a e) ''bmi'' = Some (-2)
   \<and> snd (apply_lifestyle_modifiers base (Finite 35) s a e) ''bmi'' = Some (-4)
   \<and> snd (apply_lifestyle_modifiers base PosInf s a e) ''bmi'' = Some (-4)
   \<and> snd (apply_lifestyle_modifiers base NegInf s a e) ''bmi'' = Some (-2)
   \<and> snd (apply_lifestyle_modifiers base NaN s a e) ''bmi'' = Some (-4)"
  by (simp add: modifiers_bmi bmi_cases)

theorem bmi_modifier_buckets_witness:
  "Finite 22 \<noteq> NaN
   \<and> spec_bmi_buckets (Finite 22) = [1/2]
   \<and> snd (apply_lifestyle_modifiers 70 (Finite 22) ''none'' ''none'' ''moderate'') ''bmi'' = Some (1/2)"
  using bmi_modifier_buckets[of "Finite 22" 70 "''none''" "''none''" "''moderate''"]
  by (simp add: spec_bmi_buckets_def)



section \<open>Rounding: properties of \<open>rne\<close> and \<open>double\<close>\<close>

lemma rne_cases:
  "rne x = \<lfloor>x\<rfloor> \<or> rne x = \<lfloor>x\<rfloor> + 1"
  by (simp add: rne_def Let_def)

lemma rne_lower: "x - 1/2 \<le> of_int (rne x)"
  unfolding rne_def Let_def by (auto; linarith)

lemma rne_upper: "of_int (rne x) \<le> x + 1/2"
  unfolding rne_def Let_def by (auto; linarith)

lemma rne_of_int [simp]: "rne (of_int n) = n"
  by (simp add: rne_def)

lemma rne_near: 
  assumes "\<bar>x - of_int n\<bar> < 1/2" shows "rne x = n"
proof -
  have "x - 1/2 \<le> of_int (rne x)" "of_int (rne x) \<le> x + 1/2" 
    by (rule rne_lower, rule rne_upper)
  with assms have "of_int (rne x) < (of_int n :: rat) + 1" "(of_int n :: rat) - 1 < of_int (rne x)"
    by linarith+
  then have "rne x < n + 1" "n - 1 < rne x"
    by (metis of_int_1 of_int_add of_int_less_iff, metis of_int_1 of_int_diff of_int_less_iff)
  then show ?thesis by linarith
qed

lemma rne_mono: 
  assumes "x \<le> y" shows "rne x \<le> rne y"
proof (cases "\<lfloor>x\<rfloor> = \<lfloor>y\<rfloor>")
  case True
  then show ?thesis using assms
    unfolding rne_def Let_def by (auto; linarith)
next
  case False
  with assms have "\<lfloor>x\<rfloor> < \<lfloor>y\<rfloor>" 
    using floor_mono[OF assms] by linarith
  then have le: "\<lfloor>x\<rfloor> + 1 \<le> \<lfloor>y\<rfloor>" by simp
  have "rne x \<le> \<lfloor>x\<rfloor> + 1" using rne_cases[of x] by linarith
  moreover have "\<lfloor>y\<rfloor> \<le> rne y" using rne_cases[of y] by linarith
  ultimately show ?thesis using le by linarith
qed

lemma rne_minus: "rne (- x) = - rne x"
proof (cases "x \<in> \<int>")
  case True
  then obtain n where "x = of_int n" by (auto elim: Ints_cases)
  then show ?thesis by (simp flip: of_int_minus)
next
  case False
  then have "x \<noteq> of_int \<lfloor>x\<rfloor>" by (metis Ints_of_int)
  then have fl: "\<lfloor>- x\<rfloor> = - \<lfloor>x\<rfloor> - 1"
    by (simp add: floor_minus ceiling_altdef)
  show ?thesis
    unfolding rne_def Let_def fl by (auto; linarith?)
qed

lemma bitlen_rat:
  assumes "0 < p"
  shows "2 powi (bitlen p - 1) \<le> (of_int p :: rat)" "(of_int p :: rat) < 2 powi bitlen p"
proof -
  from bitlen_bounds[OF assms]
  have a: "2 ^ nat (bitlen p - 1) \<le> p" and b: "p < 2 ^ nat (bitlen p)" by auto
  have ge1: "1 \<le> bitlen p" using assms by (auto simp: bitlen_alt_def)
  have "(of_int (2 ^ nat (bitlen p - 1)) :: rat) \<le> of_int p" using a by (simp only: of_int_le_iff)
  then show "2 powi (bitlen p - 1) \<le> (of_int p :: rat)"
    using ge1 by (simp add: power_int_def)
  have "(of_int p :: rat) < of_int (2 ^ nat (bitlen p))" using b by (simp only: of_int_less_iff)
  then show "(of_int p :: rat) < 2 powi bitlen p"
    using ge1 by (simp add: power_int_def)
qed

lemma expo_bounds:
  assumes "x \<noteq> 0"
  shows "2 powi expo x \<le> \<bar>x\<bar>" "\<bar>x\<bar> < 2 powi (expo x + 1)"
proof -
  obtain p q where pq: "quotient_of \<bar>x\<bar> = (p, q)" by force
  then have q: "0 < q" by (rule quotient_of_denom_pos)
  from pq have xe: "\<bar>x\<bar> = of_int p / of_int q" by (rule quotient_of_div)
  have "0 < \<bar>x\<bar>" using assms by simp
  with xe q have p: "0 < p" by (simp add: zero_less_divide_iff)
  let ?k = "bitlen p - bitlen q"
  have up: "\<bar>x\<bar> < 2 powi (?k + 1)"
  proof -
    have "\<bar>x\<bar> < 2 powi bitlen p / 2 powi (bitlen q - 1)"
      unfolding xe using bitlen_rat[OF p] bitlen_rat[OF q] p q
      by (intro frac_less) auto
    also have "\<dots> = 2 powi (?k + 1)"
      by (simp flip: power_int_diff add: algebra_simps)
    finally show ?thesis .
  qed
  have lo: "2 powi (?k - 1) \<le> \<bar>x\<bar>"
  proof -
    have "2 powi (bitlen p - 1) / 2 powi bitlen q \<le> \<bar>x\<bar>"
      unfolding xe using bitlen_rat[OF p] bitlen_rat[OF q] p q
      by (intro frac_le) auto
    moreover have "2 powi (bitlen p - 1) / 2 powi bitlen q = (2::rat) powi (?k - 1)"
      by (simp flip: power_int_diff add: algebra_simps)
    ultimately show ?thesis by simp
  qed
  have e: "expo x = (if 2 powi ?k \<le> \<bar>x\<bar> then ?k else ?k - 1)"
    by (simp add: expo_def pq)
  show "2 powi expo x \<le> \<bar>x\<bar>" using lo by (simp add: e)
  show "\<bar>x\<bar> < 2 powi (expo x + 1)" using up by (auto simp add: e)
qed

lemma expo_unique:
  assumes "2 powi j \<le> \<bar>x\<bar>" "\<bar>x\<bar> < 2 powi (j + 1)"
  shows "expo x = j"
proof -
  have "0 < (2::rat) powi j" by simp
  with assms(1) have "0 < \<bar>x\<bar>" by linarith
  then have nz: "x \<noteq> 0" by simp
  note b = expo_bounds[OF nz]
  have "(2::rat) powi expo x < 2 powi (j + 1)" using b(1) assms(2) by linarith
  then have 1: "expo x < j + 1"
    by (metis linorder_not_le one_le_numeral power_int_increasing)
  have "(2::rat) powi j < 2 powi (expo x + 1)" using b(2) assms(1) by linarith
  then have 2: "j < expo x + 1"
    by (metis linorder_not_le one_le_numeral power_int_increasing)
  from 1 2 show ?thesis by linarith
qed


lemma double_0 [simp]: "double 0 = 0"
  by (simp add: double_def)

lemma expo_minus [simp]: "expo (- x) = expo x"
  by (simp add: expo_def)

lemma double_minus: "double (- x) = - double x"
  by (simp add: double_def Let_def rne_minus)

lemma double_eq:
  assumes "2 ^ 52 \<le> \<bar>x\<bar> * 2 powi k" "\<bar>x\<bar> * 2 powi k < 2 ^ 53"
  shows "double x = of_int (rne (x * 2 powi k)) / 2 powi k"
proof -
  have pos: "0 < (2::rat) powi k" by simp
  have a: "(2::rat) powi (52 - k) = 2 ^ 52 / 2 powi k"
    by (simp add: power_int_diff)
  have b: "(2::rat) powi (52 - k + 1) = 2 ^ 53 / 2 powi k"
    by (simp add: power_int_diff power_int_add)
  have "2 powi (52 - k) \<le> \<bar>x\<bar>"
    unfolding a using assms(1) pos by (simp add: pos_divide_le_eq)
  moreover have "\<bar>x\<bar> < 2 powi (52 - k + 1)"
    unfolding b using assms(2) pos by (simp add: pos_less_divide_eq)
  ultimately have e: "expo x = 52 - k" by (rule expo_unique)
  have "x \<noteq> 0" using assms(1) by auto
  then show ?thesis by (simp add: double_def Let_def e)
qed

lemma scaled_range:
  assumes "x \<noteq> 0"
  shows "2 ^ 52 \<le> \<bar>x\<bar> * 2 powi (52 - expo x)" "\<bar>x\<bar> * 2 powi (52 - expo x) < 2 ^ 53"
proof -
  note b = expo_bounds[OF assms]
  have s: "(2::rat) powi (52 - expo x) = 2 ^ 52 / 2 powi expo x"
    by (simp add: power_int_diff)
  have pos: "0 < (2::rat) powi expo x" by simp
  show "2 ^ 52 \<le> \<bar>x\<bar> * 2 powi (52 - expo x)"
    unfolding s using b(1) pos by (simp add: pos_le_divide_eq)
  have "\<bar>x\<bar> < 2 * 2 powi expo x" using b(2) by (simp add: power_int_add)
  then show "\<bar>x\<bar> * 2 powi (52 - expo x) < 2 ^ 53"
    unfolding s using pos by (simp add: pos_divide_less_eq)
qed

lemma double_err:
  "\<bar>double x - x\<bar> \<le> \<bar>x\<bar> / 2 ^ 53"
proof (cases "x = 0")
  case True then show ?thesis by simp
next
  case False
  let ?s = "(2::rat) powi (52 - expo x)"
  let ?y = "x * ?s"
  have pos: "0 < ?s" by simp
  have d: "double x = of_int (rne ?y) / ?s" using False by (simp add: double_def Let_def)
  have "\<bar>of_int (rne ?y) - ?y\<bar> \<le> 1/2"
    using rne_lower[of ?y] rne_upper[of ?y] by linarith
  moreover have "1/2 \<le> \<bar>?y\<bar> / 2 ^ 53"
    using scaled_range(1)[OF False] by (simp add: abs_mult)
  ultimately have "\<bar>of_int (rne ?y) - ?y\<bar> \<le> \<bar>?y\<bar> / 2 ^ 53" by linarith
  then have "\<bar>of_int (rne ?y) - ?y\<bar> / ?s \<le> (\<bar>?y\<bar> / 2 ^ 53) / ?s"
    by (rule divide_right_mono) simp
  moreover have "\<bar>of_int (rne ?y) - ?y\<bar> / ?s = \<bar>double x - x\<bar>"
  proof -
    have "(of_int (rne ?y) - ?y) / ?s = double x - x"
      unfolding d by (simp add: diff_divide_distrib)
    then have "\<bar>double x - x\<bar> = \<bar>of_int (rne ?y) - ?y\<bar> / \<bar>?s\<bar>"
      by (metis abs_divide)
    also have "\<bar>?s\<bar> = ?s" by simp
    finally show ?thesis by simp
  qed
  moreover have "(\<bar>?y\<bar> / 2 ^ 53) / ?s = \<bar>x\<bar> / 2 ^ 53"
    using pos by (simp add: abs_mult)
  ultimately show ?thesis by simp
qed

lemma double_pos_range:
  assumes "0 < x"
  shows "2 powi expo x \<le> double x" "double x \<le> 2 powi (expo x + 1)"
proof -
  have nz: "x \<noteq> 0" using assms by simp
  let ?s = "(2::rat) powi (52 - expo x)"
  let ?y = "x * ?s"
  have pos: "0 < ?s" by simp
  have d: "double x = of_int (rne ?y) / ?s" using nz by (simp add: double_def Let_def)
  have r: "2 ^ 52 \<le> ?y" "?y < 2 ^ 53" using scaled_range[OF nz] assms by simp_all
  have "rne (of_int (2 ^ 52)) \<le> rne ?y" by (rule rne_mono) (use r in simp)
  then have lo: "(2::rat) ^ 52 \<le> of_int (rne ?y)"
    unfolding rne_of_int by (metis of_int_le_iff of_int_numeral of_int_power)
  have "rne ?y \<le> rne (of_int (2 ^ 53))" by (rule rne_mono) (use r in simp)
  then have hi: "of_int (rne ?y) \<le> (2::rat) ^ 53"
    unfolding rne_of_int by (metis of_int_le_iff of_int_numeral of_int_power)
  have a: "(2::rat) powi expo x = 2 ^ 52 / ?s"
    by (simp add: power_int_diff)
  have b: "(2::rat) powi (expo x + 1) = 2 ^ 53 / ?s"
    by (simp add: power_int_diff power_int_add)
  show "2 powi expo x \<le> double x" unfolding a d by (rule divide_right_mono[OF lo]) simp
  show "double x \<le> 2 powi (expo x + 1)" unfolding b d by (rule divide_right_mono[OF hi]) simp
qed

lemma double_pos: "0 < x \<Longrightarrow> 0 < double x"
  using double_pos_range(1)[of x] zero_less_power_int[of "2::rat" "expo x"] by linarith

lemma double_mono_pos:
  assumes "0 < x" "x \<le> y"
  shows "double x \<le> double y"
proof -
  have y: "0 < y" using assms by linarith
  have nx: "x \<noteq> 0" and ny: "y \<noteq> 0" using assms by auto
  have "2 powi expo x \<le> \<bar>x\<bar>" by (rule expo_bounds(1)[OF nx])
  also have "\<bar>x\<bar> \<le> \<bar>y\<bar>" using assms by simp
  also have "\<bar>y\<bar> < 2 powi (expo y + 1)" by (rule expo_bounds(2)[OF ny])
  finally have "expo x < expo y + 1"
    by (metis linorder_not_le one_le_numeral power_int_increasing)
  then consider "expo x = expo y" | "expo x + 1 \<le> expo y" by linarith
  then show ?thesis
  proof cases
    case 1
    let ?s = "(2::rat) powi (52 - expo y)"
    have pos: "0 < ?s" by simp
    have "x * ?s \<le> y * ?s" using assms pos by simp
    then have "rne (x * ?s) \<le> rne (y * ?s)" by (rule rne_mono)
    then have "(of_int (rne (x * ?s)) :: rat) \<le> of_int (rne (y * ?s))" by simp
    then have "(of_int (rne (x * ?s)) :: rat) / ?s \<le> of_int (rne (y * ?s)) / ?s"
      by (rule divide_right_mono) simp
    then show ?thesis using nx ny by (simp add: double_def Let_def 1)
  next
    case 2
    have "double x \<le> 2 powi (expo x + 1)" by (rule double_pos_range(2)[OF assms(1)])
    also have "\<dots> \<le> 2 powi expo y" using 2 by (intro power_int_increasing) auto
    also have "\<dots> \<le> double y" by (rule double_pos_range(1)[OF y])
    finally show ?thesis .
  qed
qed

lemma double_mono:
  assumes "x \<le> y"
  shows "double x \<le> double y"
proof -
  consider "0 < x" | "x = 0" "y = 0" | "x = 0" "0 < y" | "x < 0" "0 < y" | "x < 0" "y = 0" | "x < 0" "y < 0"
    using assms by linarith
  then show ?thesis
  proof cases
    case 1 then show ?thesis using assms by (rule double_mono_pos)
  next
    case 2 then show ?thesis by simp
  next
    case 3 then show ?thesis using double_pos[of y] by simp
  next
    case 4
    then have "0 < double (- x)" "0 < double y" by (simp_all add: double_pos)
    then show ?thesis by (simp add: double_minus)
  next
    case 5
    then have "0 < double (- x)" by (simp add: double_pos)
    then show ?thesis using 5 by (simp add: double_minus)
  next
    case 6
    then have "double (- y) \<le> double (- x)" using assms by (intro double_mono_pos) auto
    then show ?thesis by (simp add: double_minus)
  qed
qed

lemma double_exact:
  assumes "x = of_int m * 2 powi j" "\<bar>m\<bar> < 2 ^ 53"
  shows "double x = x"
proof (cases "x = 0")
  case True then show ?thesis by simp
next
  case False
  let ?e = "expo x"
  have "\<bar>x\<bar> = of_int \<bar>m\<bar> * 2 powi j" by (simp add: assms(1) abs_mult)
  also have "\<dots> < 2 ^ 53 * 2 powi j"
  proof -
    have "(of_int \<bar>m\<bar> :: rat) < of_int (2 ^ 53)" using assms(2) by (simp only: of_int_less_iff)
    then show ?thesis by simp
  qed
  also have "\<dots> = 2 powi (53 + j)" by (simp add: power_int_add)
  finally have "2 powi ?e < (2::rat) powi (53 + j)"
    using expo_bounds(1)[OF False] by linarith
  then have "?e < 53 + j"
    by (metis linorder_not_le one_le_numeral power_int_increasing)
  then have n: "0 \<le> j + 52 - ?e" by simp
  have "x * 2 powi (52 - ?e) = of_int m * (2 powi j * 2 powi (52 - ?e))"
    by (simp add: assms(1))
  also have "2 powi j * 2 powi (52 - ?e) = (2::rat) powi (j + 52 - ?e)"
    by (simp flip: power_int_add add: algebra_simps)
  also have "\<dots> = 2 ^ nat (j + 52 - ?e)" using n by (simp add: power_int_def)
  finally have "x * 2 powi (52 - ?e) = of_int (m * 2 ^ nat (j + 52 - ?e))" by simp
  then have "rne (x * 2 powi (52 - ?e)) = m * 2 ^ nat (j + 52 - ?e)"
    by (simp only: rne_of_int)
  then have "of_int (rne (x * 2 powi (52 - ?e))) = x * 2 powi (52 - ?e)"
    using \<open>x * 2 powi (52 - ?e) = of_int (m * 2 ^ nat (j + 52 - ?e))\<close> by simp
  then show ?thesis using False by (simp add: double_def Let_def)
qed

lemma double_of_int: "\<bar>m\<bar> < 2 ^ 53 \<Longrightarrow> double (of_int m) = of_int m"
  using double_exact[of "of_int m" m 0] by simp

section \<open>Values of the life table\<close>

lemma DAYS_PER_YEAR_eq: "DAYS_PER_YEAR = 6425414011327611 / 17592186044416"
  unfolding DAYS_PER_YEAR_def by code_simp

lemma table_doubles:
  "double (745/10) = 149/2"
  "double (802/10) = 5643573283048653/70368744177664"
  "double 79 = 79"
  "double (829/10) = 2916784446164173/35184372088832"
  "double 80 = 80"
  "double 84 = 84"
  "double (812/10) = 5713942027226317/70368744177664"
  "double (853/10) = 6002453878354739/70368744177664"
  "double (787/10) = 5538020166782157/70368744177664"
  "double (834/10) = 2934376632208589/35184372088832"
  "double (672/10) = 4728779608739021/70368744177664"
  "double (695/10) = 139/2"
  "double (815/10) = 163/2"
  "double (875/10) = 175/2"
  "double (794/10) = 2793639143853261/35184372088832"
  by code_simp+

lemma LIFE_TABLE_eval:
  "LIFE_TABLE = map_of
     [(''usa'', map_of [(''male'', 149/2), (''female'', 5643573283048653/70368744177664)]),
      (''united states'', map_of [(''male'', 149/2), (''female'', 5643573283048653/70368744177664)]),
      (''uk'', map_of [(''male'', 79), (''female'', 2916784446164173/35184372088832)]),
      (''united kingdom'', map_of [(''male'', 79), (''female'', 2916784446164173/35184372088832)]),
      (''canada'', map_of [(''male'', 80), (''female'', 84)]),
      (''australia'', map_of [(''male'', 5713942027226317/70368744177664),
                              (''female'', 6002453878354739/70368744177664)]),
      (''germany'', map_of [(''male'', 5538020166782157/70368744177664),
                            (''female'', 2934376632208589/35184372088832)]),
      (''india'', map_of [(''male'', 4728779608739021/70368744177664), (''female'', 139/2)]),
      (''japan'', map_of [(''male'', 163/2), (''female'', 175/2)]),
      (''france'', map_of [(''male'', 2793639143853261/35184372088832),
                           (''female'', 6002453878354739/70368744177664)])]"
  unfolding LIFE_TABLE_def by (simp only: table_doubles)

lemma global_avg_eval: "global_avg = map_of [(''male'', 70), (''female'', 75)]"
  unfolding global_avg_def by (simp only: double_70 double_75)

lemma get_base_values:
  assumes "get_base_life_expectancy c sx = Inr base"
  shows "base \<in> {149/2, 5643573283048653/70368744177664, 79, 2916784446164173/35184372088832,
     80, 84, 5713942027226317/70368744177664, 6002453878354739/70368744177664,
     5538020166782157/70368744177664, 2934376632208589/35184372088832,
     4728779608739021/70368744177664, 139/2, 163/2, 175/2, 2793639143853261/35184372088832,
     70, 75}"
  using assms
  by (auto simp: get_base_life_expectancy_def Let_def LIFE_TABLE_eval global_avg_eval dict_item_def
        split: option.splits if_splits)

lemma isl_dict_item: "isl (dict_item d k) = (d k = None)"
  by (simp add: dict_item_def split: option.splits)

lemma LIFE_TABLE_rows:
  assumes "LIFE_TABLE k = Some row"
  shows "dom row = {''male'', ''female''}"
proof -
  note assms[unfolded LIFE_TABLE_def]
  from map_of_SomeD[OF this] show ?thesis by (auto split: if_splits)
qed

lemma global_avg_dom: "dom global_avg = {''male'', ''female''}"
  unfolding global_avg_def by (simp add: insert_commute)

lemma get_base_not_error:
  assumes "sx \<in> set [''male'', ''female'']"
  shows "\<not> isl (get_base_life_expectancy c sx)"
proof (cases "LIFE_TABLE (lower (strip c))")
  case None
  have "sx \<in> dom global_avg" using assms by (simp add: global_avg_dom)
  then show ?thesis
    by (simp add: get_base_life_expectancy_def None isl_dict_item domIff)
next
  case (Some row)
  have "sx \<in> dom row" using assms LIFE_TABLE_rows[OF Some] by simp
  then show ?thesis
    by (simp add: get_base_life_expectancy_def Some isl_dict_item domIff)
qed

lemma get_base_valid_sex:
  assumes "sx \<in> set [''male'', ''female'']"
  shows "\<exists>base. get_base_life_expectancy c sx = Inr base"
  using get_base_not_error[OF assms, of c] by (cases "get_base_life_expectancy c sx") auto

lemma base_values_grid:
  "\<forall>x \<in> {149/2, 5643573283048653/70368744177664, 79, 2916784446164173/35184372088832,
     80, 84, 5713942027226317/70368744177664, 6002453878354739/70368744177664,
     5538020166782157/70368744177664, 2934376632208589/35184372088832,
     4728779608739021/70368744177664, 139/2, 163/2, 175/2, 2793639143853261/35184372088832,
     70, 75::rat}. x * 2 ^ 46 \<in> \<int> \<and> 67 \<le> x \<and> x \<le> 88"
  by simp

lemma base_grid:
  assumes "get_base_life_expectancy c sx = Inr base"
  shows "base * 2 ^ 46 \<in> \<int>" "67 \<le> base" "base \<le> 88"
  using get_base_values[OF assms] base_values_grid by blast+

lemma grid_exact:
  assumes "x * 2 ^ 46 \<in> \<int>" "\<bar>x\<bar> < 128"
  shows "double x = x"
proof -
  from assms(1) obtain m where m: "x * 2 ^ 46 = of_int m" by (auto elim: Ints_cases)
  then have x: "x = of_int m * 2 powi (- 46)"
    by (simp add: power_int_minus field_simps)
  have "\<bar>of_int m :: rat\<bar> = \<bar>x\<bar> * 2 ^ 46" by (simp add: m[symmetric] abs_mult)
  also have "\<dots> < 128 * 2 ^ 46" using assms(2) by simp
  finally have "(of_int \<bar>m\<bar> :: rat) < of_int (2 ^ 53)" by simp
  then have "\<bar>m\<bar> < 2 ^ 53" by (simp only: of_int_less_iff)
  with x show ?thesis by (rule double_exact)
qed

lemma grid_add:
  assumes "x * 2 ^ 46 \<in> \<int>" "v * 2 \<in> \<int>"
  shows "(x + v) * 2 ^ 46 \<in> \<int>"
proof -
  have "(x + v) * 2 ^ 46 = x * 2 ^ 46 + (v * 2) * 2 ^ 45" by (simp add: algebra_simps)
  with assms show ?thesis by (simp del: power_numeral)
qed

lemma bmi_val:
  "(if float_lt b (Finite (37/2)) then -2
    else if float_le (Finite (37/2)) b \<and> float_lt b (Finite 25) then 1/2
    else if float_le (Finite 25) b \<and> float_lt b (Finite 30) then -1/2
    else if float_le (Finite 30) b \<and> float_lt b (Finite 35) then -2
    else (-4::rat)) \<in> {-4, -2, -1/2, 1/2}"
  by simp

lemma smoking_val: "dict_get smoking_map s (-2) \<in> {-7, -4, -2, -1, 3/2}"
  by (simp add: dict_get_def smoking_map_def)

lemma alcohol_val: "dict_get alcohol_map a 0 \<in> {-3, 0, 1/2}"
  by (simp add: dict_get_def alcohol_map_def)

lemma exercise_val: "dict_get exercise_map e 0 \<in> {-2, -1/2, 0, 1, 2}"
  by (simp add: dict_get_def exercise_map_def)

lemma adjusted_chain:
  "fst (apply_lifestyle_modifiers base b s a e) =
     double (double (double (double (base
       + (if float_lt b (Finite (37/2)) then -2
          else if float_le (Finite (37/2)) b \<and> float_lt b (Finite 25) then 1/2
          else if float_le (Finite 25) b \<and> float_lt b (Finite 30) then -1/2
          else if float_le (Finite 30) b \<and> float_lt b (Finite 35) then -2
          else -4))
       + dict_get smoking_map s (-2))
       + dict_get alcohol_map a 0)
       + dict_get exercise_map e 0)"
  by (simp add: apply_lifestyle_modifiers_def Let_def)

lemma chain_exact:
  assumes g: "x * 2 ^ 46 \<in> \<int>" and r: "67 \<le> x" "x \<le> 88"
    and v1: "v1 \<in> {-4, -2, -1/2, 1/2}" and v2: "v2 \<in> {-7, -4, -2, -1, 3/2}"
    and v3: "v3 \<in> {-3, 0, 1/2}" and v4: "v4 \<in> {-2, -1/2, 0, 1, 2::rat}"
  shows "double (double (double (double (x + v1) + v2) + v3) + v4) = x + v1 + v2 + v3 + v4"
proof -
  have i1: "v1 * 2 \<in> \<int>" and b1: "-4 \<le> v1" "v1 \<le> 1/2" using v1 by auto
  have i2: "v2 * 2 \<in> \<int>" and b2: "-7 \<le> v2" "v2 \<le> 3/2" using v2 by auto
  have i3: "v3 * 2 \<in> \<int>" and b3: "-3 \<le> v3" "v3 \<le> 1/2" using v3 by auto
  have i4: "v4 * 2 \<in> \<int>" and b4: "-2 \<le> v4" "v4 \<le> 2" using v4 by auto
  have g1: "(x + v1) * 2 ^ 46 \<in> \<int>" by (rule grid_add[OF g i1])
  have e1: "double (x + v1) = x + v1" by (rule grid_exact[OF g1]) (use r b1 in linarith)
  have g2: "(x + v1 + v2) * 2 ^ 46 \<in> \<int>" by (rule grid_add[OF g1 i2])
  have e2: "double (x + v1 + v2) = x + v1 + v2" by (rule grid_exact[OF g2]) (use r b1 b2 in linarith)
  have g3: "(x + v1 + v2 + v3) * 2 ^ 46 \<in> \<int>" by (rule grid_add[OF g2 i3])
  have e3: "double (x + v1 + v2 + v3) = x + v1 + v2 + v3"
    by (rule grid_exact[OF g3]) (use r b1 b2 b3 in linarith)
  have g4: "(x + v1 + v2 + v3 + v4) * 2 ^ 46 \<in> \<int>" by (rule grid_add[OF g3 i4])
  have e4: "double (x + v1 + v2 + v3 + v4) = x + v1 + v2 + v3 + v4"
    by (rule grid_exact[OF g4]) (use r b1 b2 b3 b4 in linarith)
  show ?thesis by (simp only: e1 e2 e3 e4)
qed

section \<open>The total adjustment\<close>

lemma big_base_steps:
  "double (9007199254741024 + (- 4)) = 9007199254741020"
  "double (9007199254741020 + (- 7)) = 9007199254741012"
  "double (9007199254741012 + (- 3)) = 9007199254741008"
  "double (9007199254741008 + (- 2)) = 9007199254741006"
  "double 9007199254741024 = 9007199254741024"
  by code_simp+

lemma heavy_values:
  "dict_get smoking_map ''heavy'' (- 2) = - 7"
  "dict_get alcohol_map ''heavy'' 0 = - 3"
  "dict_get exercise_map ''sedentary'' 0 = - 2"
  by (simp_all add: dict_get_def smoking_map_def alcohol_map_def exercise_map_def)

lemma none_values:
  "dict_get smoking_map ''none'' (- 2) = 3/2"
  "dict_get alcohol_map ''none'' 0 = 1/2"
  "dict_get exercise_map ''moderate'' 0 = 1"
  by (simp_all add: dict_get_def smoking_map_def alcohol_map_def exercise_map_def)

lemma modifiers_map:
  "snd (apply_lifestyle_modifiers base b s a e) =
     [''bmi'' \<mapsto> (if float_lt b (Finite (37/2)) then -2
          else if float_le (Finite (37/2)) b \<and> float_lt b (Finite 25) then 1/2
          else if float_le (Finite 25) b \<and> float_lt b (Finite 30) then -1/2
          else if float_le (Finite 30) b \<and> float_lt b (Finite 35) then -2
          else -4),
      ''smoking'' \<mapsto> dict_get smoking_map s (-2),
      ''alcohol'' \<mapsto> dict_get alcohol_map a 0,
      ''exercise'' \<mapsto> dict_get exercise_map e 0]"
  by (simp add: apply_lifestyle_modifiers_def Let_def)

lemma bmi_branch_40:
  "(if float_lt (Finite 40) (Finite (37/2)) then -2
    else if float_le (Finite (37/2)) (Finite 40) \<and> float_lt (Finite 40) (Finite 25) then 1/2
    else if float_le (Finite 25) (Finite 40) \<and> float_lt (Finite 40) (Finite 30) then -1/2
    else if float_le (Finite 30) (Finite 40) \<and> float_lt (Finite 40) (Finite 35) then -2
    else -4) = (- 4 :: rat)"
  by simp

lemma big_base_adjusted:
  "fst (apply_lifestyle_modifiers 9007199254741024 (Finite 40) ''heavy'' ''heavy'' ''sedentary'')
     = 9007199254741006"
  by (simp only: adjusted_chain heavy_values bmi_branch_40 big_base_steps)

lemma big_base_modifiers:
  "snd (apply_lifestyle_modifiers 9007199254741024 (Finite 40) ''heavy'' ''heavy'' ''sedentary'')
       = [''bmi'' \<mapsto> - 4, ''smoking'' \<mapsto> - 7, ''alcohol'' \<mapsto> - 3, ''exercise'' \<mapsto> - 2]"
  by (simp only: modifiers_map heavy_values bmi_branch_40)

text \<open>
  Claim C10, as stated, at a base outside the life table. The floats from \<open>2^53\<close> to
  \<open>2^54\<close> are the even integers, so each of the four additions rounds: with the base
  \<open>2^53 + 32\<close> and the breakdown \<open>-4, -7, -3, -2\<close> (sum \<open>-16\<close>) the returned
  adjusted value is the base minus 18.
\<close>

theorem modifier_total_counterexample:
  "double 9007199254741024 = 9007199254741024
   \<and> snd (apply_lifestyle_modifiers 9007199254741024 (Finite 40) ''heavy'' ''heavy'' ''sedentary'')
       = [''bmi'' \<mapsto> - 4, ''smoking'' \<mapsto> - 7, ''alcohol'' \<mapsto> - 3, ''exercise'' \<mapsto> - 2]
   \<and> fst (apply_lifestyle_modifiers 9007199254741024 (Finite 40) ''heavy'' ''heavy'' ''sedentary'')
       - 9007199254741024 = - 18
   \<and> fst (apply_lifestyle_modifiers 9007199254741024 (Finite 40) ''heavy'' ''heavy'' ''sedentary'')
       \<noteq> 9007199254741024 + (- 4 + - 7 + - 3 + - 2)"
  unfolding big_base_adjusted big_base_modifiers by (simp add: big_base_steps)

text \<open>
  Claim C10, amended. For every input the four breakdown values are drawn from the fixed
  finite sets and their sum lies in \<open>[-16, 4.5]\<close>. For every base that
  \<^verbatim>\<open>get_base_life_expectancy\<close> can return, which are the only bases that
  \<^verbatim>\<open>predict\<close> passes, the four float additions are exact: the adjusted value is the
  base plus the sum of the four values, and adjusted minus base lies in \<open>[-16, 4.5]\<close>.
\<close>

theorem modifier_values_and_total:
  "\<exists>v1 \<in> {-4, -2, -1/2, 1/2}. \<exists>v2 \<in> {-7, -4, -2, -1, 3/2}.
   \<exists>v3 \<in> {-3, 0, 1/2}. \<exists>v4 \<in> {-2, -1/2, 0, 1, 2}.
      snd (apply_lifestyle_modifiers base b s a e)
        = [''bmi'' \<mapsto> v1, ''smoking'' \<mapsto> v2, ''alcohol'' \<mapsto> v3, ''exercise'' \<mapsto> v4]
    \<and> - 16 \<le> v1 + v2 + v3 + v4 \<and> v1 + v2 + v3 + v4 \<le> 9/2
    \<and> (get_base_life_expectancy c sx = Inr base \<longrightarrow>
          fst (apply_lifestyle_modifiers base b s a e) = base + (v1 + v2 + v3 + v4)
        \<and> - 16 \<le> fst (apply_lifestyle_modifiers base b s a e) - base
        \<and> fst (apply_lifestyle_modifiers base b s a e) - base \<le> 9/2)"
proof -
  define v1 :: rat where "v1 = (if float_lt b (Finite (37/2)) then -2
          else if float_le (Finite (37/2)) b \<and> float_lt b (Finite 25) then 1/2
          else if float_le (Finite 25) b \<and> float_lt b (Finite 30) then -1/2
          else if float_le (Finite 30) b \<and> float_lt b (Finite 35) then -2
          else -4)"
  define v2 where "v2 = dict_get smoking_map s (-2)"
  define v3 where "v3 = dict_get alcohol_map a 0"
  define v4 where "v4 = dict_get exercise_map e 0"
  have m1: "v1 \<in> {-4, -2, -1/2, 1/2}" unfolding v1_def by (rule bmi_val)
  have m2: "v2 \<in> {-7, -4, -2, -1, 3/2}" unfolding v2_def by (rule smoking_val)
  have m3: "v3 \<in> {-3, 0, 1/2}" unfolding v3_def by (rule alcohol_val)
  have m4: "v4 \<in> {-2, -1/2, 0, 1, 2}" unfolding v4_def by (rule exercise_val)
  have b1: "-4 \<le> v1" "v1 \<le> 1/2" using m1 by auto
  have b2: "-7 \<le> v2" "v2 \<le> 3/2" using m2 by auto
  have b3: "-3 \<le> v3" "v3 \<le> 1/2" using m3 by auto
  have b4: "-2 \<le> v4" "v4 \<le> 2" using m4 by auto
  have s: "snd (apply_lifestyle_modifiers base b s a e)
        = [''bmi'' \<mapsto> v1, ''smoking'' \<mapsto> v2, ''alcohol'' \<mapsto> v3, ''exercise'' \<mapsto> v4]"
    unfolding v1_def v2_def v3_def v4_def by (rule modifiers_map)
  have bounds: "- 16 \<le> v1 + v2 + v3 + v4" "v1 + v2 + v3 + v4 \<le> 9/2"
    using b1 b2 b3 b4 by linarith+
  have f: "fst (apply_lifestyle_modifiers base b s a e) = base + (v1 + v2 + v3 + v4)"
    if g: "get_base_life_expectancy c sx = Inr base"
  proof -
    have "fst (apply_lifestyle_modifiers base b s a e)
          = double (double (double (double (base + v1) + v2) + v3) + v4)"
      unfolding v1_def v2_def v3_def v4_def by (rule adjusted_chain)
    also have "\<dots> = base + v1 + v2 + v3 + v4"
      by (rule chain_exact[OF base_grid[OF g] m1 m2 m3 m4])
    finally show ?thesis by simp
  qed
  have g3: "get_base_life_expectancy c sx = Inr base \<longrightarrow>
          fst (apply_lifestyle_modifiers base b s a e) = base + (v1 + v2 + v3 + v4)
        \<and> - 16 \<le> fst (apply_lifestyle_modifiers base b s a e) - base
        \<and> fst (apply_lifestyle_modifiers base b s a e) - base \<le> 9/2"
  proof
    assume g: "get_base_life_expectancy c sx = Inr base"
    from bounds show "fst (apply_lifestyle_modifiers base b s a e) = base + (v1 + v2 + v3 + v4)
        \<and> - 16 \<le> fst (apply_lifestyle_modifiers base b s a e) - base
        \<and> fst (apply_lifestyle_modifiers base b s a e) - base \<le> 9/2"
      unfolding f[OF g] by simp
  qed
  show ?thesis
    by (rule bexI[OF _ m1], rule bexI[OF _ m2], rule bexI[OF _ m3], rule bexI[OF _ m4])
       (intro conjI s bounds g3)
qed

lemma usa_male: "get_base_life_expectancy ''usa'' ''male'' = Inr (149/2)"
  by (simp add: get_base_life_expectancy_def key_usa LIFE_TABLE_eval dict_item_def)

theorem modifier_values_and_total_witness:
  "get_base_life_expectancy ''usa'' ''male'' = Inr (149/2)
   \<and> snd (apply_lifestyle_modifiers (149/2) (Finite 22) ''none'' ''none'' ''moderate'')
       = [''bmi'' \<mapsto> 1/2, ''smoking'' \<mapsto> 3/2, ''alcohol'' \<mapsto> 1/2, ''exercise'' \<mapsto> 1]
   \<and> fst (apply_lifestyle_modifiers (149/2) (Finite 22) ''none'' ''none'' ''moderate'') = 78"
proof -
  let ?am = "apply_lifestyle_modifiers (149/2) (Finite 22) ''none'' ''none'' ''moderate''"
  from modifier_values_and_total[of "149/2" "Finite 22" "''none''" "''none''" "''moderate''"
      "''usa''" "''male''"]
  obtain v1 v2 v3 v4 where
    s: "snd ?am = [''bmi'' \<mapsto> v1, ''smoking'' \<mapsto> v2, ''alcohol'' \<mapsto> v3, ''exercise'' \<mapsto> v4]"
    and f: "get_base_life_expectancy ''usa'' ''male'' = Inr (149/2) \<longrightarrow>
            fst ?am = 149/2 + (v1 + v2 + v3 + v4)"
    by blast
  have "snd ?am ''bmi'' = Some v1" "snd ?am ''smoking'' = Some v2"
       "snd ?am ''alcohol'' = Some v3" "snd ?am ''exercise'' = Some v4"
    unfolding s by simp_all
  then have v: "v1 = 1/2" "v2 = 3/2" "v3 = 1/2" "v4 = 1"
    by (simp_all add: modifiers_bmi modifiers_smoking modifiers_alcohol modifiers_exercise none_values)
  from f usa_male have "fst ?am = 149/2 + (v1 + v2 + v3 + v4)" by blast
  then have "fst ?am = 78" by (simp add: v)
  with usa_male s v show ?thesis by simp
qed

section \<open>Float error bounds for the lifespan composer\<close>

lemma age_facts:
  fixes d :: int
  assumes d: "0 \<le> d" "d \<le> 3652058"
  defines "a0 \<equiv> of_int d / (6425414011327611 / 17592186044416 :: rat)"
  defines "a1 \<equiv> double (double (of_int d) / DAYS_PER_YEAR)"
  shows "a1 = double a0" "0 \<le> a0" "0 \<le> a1" "\<bar>a1 - a0\<bar> \<le> a0 / 2 ^ 53" "py_max 0 a1 = a1"
    "a0 * 6425414011327611 = of_int d * 17592186044416"
proof -
  have dd: "double (of_int d) = of_int d" by (rule double_of_int) (use d in simp)
  show a: "a1 = double a0" by (simp add: a1_def a0_def dd DAYS_PER_YEAR_eq)
  show a0nn: "0 \<le> a0" using d by (simp add: a0_def)
  show a1nn: "0 \<le> a1" using double_mono[OF a0nn] by (simp add: a)
  show "\<bar>a1 - a0\<bar> \<le> a0 / 2 ^ 53" using double_err[of a0] a0nn by (simp add: a)
  show "py_max 0 a1 = a1" using a1nn by (simp add: py_max_def)
  show "a0 * 6425414011327611 = of_int d * 17592186044416" by (simp add: a0_def)
qed

lemma double_nonneg: "0 \<le> x \<Longrightarrow> 0 \<le> double x"
  using double_mono[of 0 x] by simp

lemma double_err_nonneg:
  assumes "0 \<le> x"
  shows "x * 9007199254740991 \<le> double x * 9007199254740992"
    "double x * 9007199254740992 \<le> x * 9007199254740993"
proof -
  have "\<bar>double x - x\<bar> \<le> x / 2 ^ 53" using double_err[of x] assms by simp
  then have "double x - x \<le> x / 2 ^ 53" "- (double x - x) \<le> x / 2 ^ 53"
    unfolding abs_le_iff by blast+
  then have "double x - x \<le> x / 9007199254740992" "- (double x - x) \<le> x / 9007199254740992"
    by simp_all
  then show "x * 9007199254740991 \<le> double x * 9007199254740992"
    "double x * 9007199254740992 \<le> x * 9007199254740993" by linarith+
qed

lemma double_err_quarter:
  assumes "0 \<le> a"
  shows "a * 9007199254740991 + 9007199254740991 / 4 \<le> double (a + 1/4) * 9007199254740992"
    "double (a + 1/4) * 9007199254740992 \<le> a * 9007199254740993 + 9007199254740993 / 4"
proof -
  have "0 \<le> a + 1/4" using assms by simp
  from double_err_nonneg[OF this] show
    "a * 9007199254740991 + 9007199254740991 / 4 \<le> double (a + 1/4) * 9007199254740992"
    "double (a + 1/4) * 9007199254740992 \<le> a * 9007199254740993 + 9007199254740993 / 4"
    by (simp_all add: algebra_simps)
qed

text \<open>
  The value \<open>X = double (age + 1/4)\<close> of the buffer, for a day count \<open>d\<close> between two
  dates: the estimated day count of \<open>X\<close> is exactly \<open>d + 91\<close>.
\<close>

lemma buffer_days:
  fixes d :: int
  assumes d: "0 \<le> d" "d \<le> 3652058"
  defines "X \<equiv> double (py_max 0 (double (double (of_int d) / DAYS_PER_YEAR)) + 1/4)"
  shows "rne (double (X * DAYS_PER_YEAR)) = d + 91"
proof -
  define D :: rat where "D = of_int d"
  define a0 where "a0 = of_int d / (6425414011327611 / 17592186044416 :: rat)"
  define a1 where "a1 = double (double (of_int d) / DAYS_PER_YEAR)"
  define W where "W = X * (6425414011327611 / 17592186044416)"
  note af = age_facts[OF d, folded a0_def a1_def]
  have D: "0 \<le> D" "D \<le> 3652058" using d by (simp_all add: D_def)
  have a0c: "a0 * 6425414011327611 = D * 17592186044416" using af(6) by (simp add: D_def)
  have X: "X = double (a1 + 1/4)" by (simp only: X_def a1_def[symmetric] af(5))
  note e1 = double_err_nonneg[OF af(2), folded af(1)]
  note e2 = double_err_quarter[OF af(3), folded X]
  have Xnn: "0 \<le> X" unfolding X by (rule double_nonneg) (use af(3) in simp)
  have Wnn: "0 \<le> W" using Xnn by (simp add: W_def)
  note e3 = double_err_nonneg[OF Wnn]
  have Wc: "W * 17592186044416 = X * 6425414011327611" by (simp add: W_def)
  have lo: "D + 90 < double W - 1/2" using e1(1) e2(1) e3(1) a0c Wc D by linarith
  have hi: "double W + 1/2 < D + 92" using e1(2) e2(2) e3(2) a0c Wc D by linarith
  from lo rne_lower[of "double W"] have "(of_int (d + 90) :: rat) < of_int (rne (double W))"
    by (simp add: D_def)
  then have 1: "d + 90 < rne (double W)" by (simp only: of_int_less_iff)
  from hi rne_upper[of "double W"] have "(of_int (rne (double W)) :: rat) < of_int (d + 92)"
    by (simp add: D_def)
  then have 2: "rne (double W) < d + 92" by (simp only: of_int_less_iff)
  from 1 2 have "rne (double W) = d + 91" by linarith
  then show ?thesis by (simp add: W_def DAYS_PER_YEAR_eq)
qed

lemma days_mono:
  assumes "L \<le> L'"
  shows "rne (double (L * DAYS_PER_YEAR)) \<le> rne (double (L' * DAYS_PER_YEAR))"
proof -
  have "0 < DAYS_PER_YEAR" by (simp add: DAYS_PER_YEAR_eq)
  with assms have "L * DAYS_PER_YEAR \<le> L' * DAYS_PER_YEAR" by simp
  then show ?thesis by (intro rne_mono double_mono)
qed

lemma days_92: "rne (double (92 * DAYS_PER_YEAR)) = 33602"
  unfolding DAYS_PER_YEAR_eq by code_simp

text \<open>The estimated day count of \<open>lifespan_years = max(adjusted, X)\<close>.\<close>

lemma est_days_bounds:
  fixes d :: int
  assumes d: "0 \<le> d" "d \<le> 3652058" and adj: "adj \<le> 92"
  defines "X \<equiv> double (py_max 0 (double (double (of_int d) / DAYS_PER_YEAR)) + 1/4)"
  shows "d + 91 \<le> rne (double (py_max adj X * DAYS_PER_YEAR))"
    "rne (double (py_max adj X * DAYS_PER_YEAR)) \<le> max 33602 (d + 91)"
proof -
  have b: "rne (double (X * DAYS_PER_YEAR)) = d + 91"
    unfolding X_def by (rule buffer_days[OF d])
  have "X \<le> py_max adj X" by (simp add: py_max_def)
  from days_mono[OF this] show "d + 91 \<le> rne (double (py_max adj X * DAYS_PER_YEAR))"
    by (simp add: b)
  show "rne (double (py_max adj X * DAYS_PER_YEAR)) \<le> max 33602 (d + 91)"
  proof (cases "adj < X")
    case True
    then show ?thesis by (simp add: py_max_def b)
  next
    case False
    have "rne (double (adj * DAYS_PER_YEAR)) \<le> 33602"
      using days_mono[OF adj] by (simp only: days_92)
    with False show ?thesis by (simp add: py_max_def)
  qed
qed

text \<open>
  Rounding to two decimals. With \<open>365.2425 = 146097/400\<close> the exact age in hundredths of
  a year is \<open>40000 * d / 146097\<close>; the denominator is odd, so this number is never within
  \<open>1/292194\<close> of a tie, and the rounding errors of the float operations are far smaller.
\<close>

lemma tie_margin:
  fixes d n :: int
  assumes "n = rne (of_int (40000 * d) / 146097)"
  shows "\<bar>of_int (40000 * d) / 146097 - (of_int n :: rat)\<bar> \<le> 73048 / 146097"
proof -
  define T :: rat where "T = of_int (40000 * d) / 146097"
  define k where "k = 40000 * d - 146097 * n"
  have "T - 1/2 \<le> of_int n" "of_int n \<le> T + 1/2"
    unfolding assms T_def by (rule rne_lower, rule rne_upper)
  moreover have T: "T * 146097 = of_int (40000 * d)" by (simp add: T_def)
  ultimately have "(of_int (2 * k) :: rat) \<le> of_int 146097" "(of_int (- 146097) :: rat) \<le> of_int (2 * k)"
    unfolding k_def by (simp_all add: algebra_simps)
  then have "2 * k \<le> 146097" "- 146097 \<le> 2 * k" by (simp_all only: of_int_le_iff)
  then have "k \<le> 73048" "- 73048 \<le> k" by linarith+
  then have "(of_int k :: rat) \<le> of_int 73048" "(of_int (- 73048) :: rat) \<le> of_int k"
    by (simp_all only: of_int_le_iff)
  moreover have "of_int k = T * 146097 - of_int n * 146097"
    using T by (simp add: k_def algebra_simps)
  ultimately have "T * 146097 - of_int n * 146097 \<le> 73048"
    "- 73048 \<le> T * 146097 - of_int n * 146097"
    by simp_all
  then have "T - of_int n \<le> 73048 / 146097" "- (73048 / 146097) \<le> T - of_int n"
    by linarith+
  then show ?thesis unfolding T_def by linarith
qed

lemma cents_of_age:
  fixes d :: int
  assumes d: "0 \<le> d" "d \<le> 3652058"
  defines "a1 \<equiv> double (double (of_int d) / DAYS_PER_YEAR)"
  defines "X \<equiv> double (py_max 0 (double (double (of_int d) / DAYS_PER_YEAR)) + 1/4)"
  defines "n \<equiv> rne (of_int (40000 * d) / 146097)"
  shows "rne (a1 * 100) = n" "rne (X * 100) = n + 25" "0 \<le> n" "n \<le> 999920"
proof -
  define D :: rat where "D = of_int d"
  define T :: rat where "T = of_int (40000 * d) / 146097"
  define N :: rat where "N = of_int n"
  define a0 where "a0 = of_int d / (6425414011327611 / 17592186044416 :: rat)"
  note af = age_facts[OF d, folded a0_def a1_def]
  have D: "0 \<le> D" "D \<le> 3652058" using d by (simp_all add: D_def)
  have a0c: "a0 * 6425414011327611 = D * 17592186044416" using af(6) by (simp add: D_def)
  have Tc: "T * 146097 = D * 40000" by (simp add: T_def D_def)
  have X: "X = double (a1 + 1/4)" by (simp only: X_def a1_def[symmetric] af(5))
  note e1 = double_err_nonneg[OF af(2), folded af(1)]
  note e2 = double_err_quarter[OF af(3), folded X]
  have "\<bar>T - N\<bar> \<le> 73048 / 146097" unfolding T_def N_def n_def by (rule tie_margin) simp
  then have m: "T - N \<le> 73048 / 146097" "- (73048 / 146097) \<le> T - N"
    unfolding abs_le_iff by linarith+
  have "a1 * 100 - N < 1/2" "- (1/2) < a1 * 100 - N"
    using e1 a0c Tc D m by linarith+
  then have "\<bar>a1 * 100 - of_int n\<bar> < 1/2" unfolding N_def by linarith
  then show "rne (a1 * 100) = n" by (rule rne_near)
  have "X * 100 - (N + 25) < 1/2" "- (1/2) < X * 100 - (N + 25)"
    using e1 e2 a0c Tc D m by linarith+
  then have "\<bar>X * 100 - of_int (n + 25)\<bar> < 1/2"
    unfolding N_def of_int_add of_int_numeral by linarith
  then show "rne (X * 100) = n + 25" by (rule rne_near)
  have "- 1 < N" "N < 999921" using Tc D m by linarith+
  then have "(of_int (- 1) :: rat) < of_int n" "(of_int n :: rat) < of_int 999921"
    unfolding N_def by simp_all
  then have "- 1 < n" "n < 999921" by (simp_all only: of_int_less_iff)
  then show "0 \<le> n" "n \<le> 999920" by linarith+
qed

lemma cents_roundtrip:
  fixes A :: int
  assumes "0 \<le> A" "A \<le> 2000000"
  shows "rne (double (of_int A / 100) * 100) = A"
    "\<bar>double (of_int A / 100) - of_int A / 100\<bar> \<le> 1 / 10000000000"
proof -
  define y :: rat where "y = of_int A / 100"
  have ynn: "0 \<le> y" using assms by (simp add: y_def)
  have yc: "y * 100 = of_int A" by (simp add: y_def)
  have Ab: "(of_int A :: rat) \<le> of_int 2000000" using assms by (simp only: of_int_le_iff)
  then have Ab': "(of_int A :: rat) \<le> 2000000" by simp
  have An: "(0::rat) \<le> of_int A" using assms by simp
  note e = double_err_nonneg[OF ynn]
  have "double y * 100 - of_int A < 1/2" "- (1/2) < double y * 100 - of_int A"
    using e yc Ab' An by linarith+
  then have "\<bar>double y * 100 - of_int A\<bar> < 1/2" by linarith
  then show "rne (double (of_int A / 100) * 100) = A" unfolding y_def by (rule rne_near)
  have "double y - y \<le> 1 / 10000000000" "- (1 / 10000000000) \<le> double y - y"
    using e yc Ab' An by linarith+
  then show "\<bar>double (of_int A / 100) - of_int A / 100\<bar> \<le> 1 / 10000000000"
    unfolding y_def by linarith
qed

section \<open>The request handler\<close>

lemma base_upper:
  assumes "get_base_life_expectancy c sx = Inr base"
  shows "base \<le> 175/2"
proof -
  have "\<forall>x \<in> {149/2, 5643573283048653/70368744177664, 79, 2916784446164173/35184372088832,
     80, 84, 5713942027226317/70368744177664, 6002453878354739/70368744177664,
     5538020166782157/70368744177664, 2934376632208589/35184372088832,
     4728779608739021/70368744177664, 139/2, 163/2, 175/2, 2793639143853261/35184372088832,
     70, 75::rat}. x \<le> 175/2"
    by simp
  with get_base_values[OF assms] show ?thesis by blast
qed

lemma adjusted_exact:
  assumes g: "get_base_life_expectancy c sx = Inr base"
  shows "fst (apply_lifestyle_modifiers base b s a e) =
     base + (if float_lt b (Finite (37/2)) then -2
          else if float_le (Finite (37/2)) b \<and> float_lt b (Finite 25) then 1/2
          else if float_le (Finite 25) b \<and> float_lt b (Finite 30) then -1/2
          else if float_le (Finite 30) b \<and> float_lt b (Finite 35) then -2
          else -4)
       + dict_get smoking_map s (-2) + dict_get alcohol_map a 0 + dict_get exercise_map e 0"
  unfolding adjusted_chain
  by (rule chain_exact[OF base_grid[OF g] bmi_val smoking_val alcohol_val exercise_val])

lemma adjusted_upper:
  assumes g: "get_base_life_expectancy c sx = Inr base"
  shows "fst (apply_lifestyle_modifiers base b s a e) \<le> 92"
proof -
  define v1 :: rat where "v1 = (if float_lt b (Finite (37/2)) then -2
          else if float_le (Finite (37/2)) b \<and> float_lt b (Finite 25) then 1/2
          else if float_le (Finite 25) b \<and> float_lt b (Finite 30) then -1/2
          else if float_le (Finite 30) b \<and> float_lt b (Finite 35) then -2
          else -4)"
  define v2 where "v2 = dict_get smoking_map s (-2)"
  define v3 where "v3 = dict_get alcohol_map a 0"
  define v4 where "v4 = dict_get exercise_map e 0"
  have "v1 \<in> {-4, -2, -1/2, 1/2}" unfolding v1_def by (rule bmi_val)
  then have b1: "v1 \<le> 1/2" by auto
  have "v2 \<in> {-7, -4, -2, -1, 3/2}" unfolding v2_def by (rule smoking_val)
  then have b2: "v2 \<le> 3/2" by auto
  have "v3 \<in> {-3, 0, 1/2}" unfolding v3_def by (rule alcohol_val)
  then have b3: "v3 \<le> 1/2" by auto
  have "v4 \<in> {-2, -1/2, 0, 1, 2}" unfolding v4_def by (rule exercise_val)
  then have b4: "v4 \<le> 2" by auto
  have "fst (apply_lifestyle_modifiers base b s a e) = base + v1 + v2 + v3 + v4"
    unfolding v1_def v2_def v3_def v4_def by (rule adjusted_exact[OF g])
  with b1 b2 b3 b4 base_upper[OF g] show ?thesis by linarith
qed

lemma predict_future:
  "today < dob req \<Longrightarrow>
   predict today req = Inl (HTTPException 400 ''Date of birth cannot be in the future'')"
  by (simp add: predict_def)

lemma predict_result:
  assumes "dob req \<le> today"
    and "get_base_life_expectancy (country req) (sex req) = Inr base"
    and "apply_lifestyle_modifiers base (bmi req) (smoking_status req) (alcohol_use req)
           (exercise_level req) = (adj, mods)"
    and "age = py_max 0 (years_between (dob req) today)"
    and "L = py_max adj (double (age + 1/4))"
    and "n = rne (double (L * DAYS_PER_YEAR))"
  shows "predict today req =
     (if 1 \<le> dob req + n \<and> dob req + n \<le> MAXORDINAL
      then Inr \<lparr>estimated_death_date = dob req + n,
                base_life_expectancy_years = py_round2 base,
                adjusted_life_expectancy_years = py_round2 L,
                current_age_years = py_round2 age,
                modifiers_applied = mods\<rparr>
      else Inl OverflowError)"
  using assms by (simp add: predict_def Let_def date_add_days_def)

lemma rne_0: "rne 0 = 0"
  using rne_of_int[of 0] by simp

lemma rne_nonneg: "0 \<le> x \<Longrightarrow> 0 \<le> rne x"
  using rne_mono[of 0 x] by (simp add: rne_0)

lemma predict_valid_cases:
  assumes v: "request_valid req" "date_valid today" "dob req \<le> today"
  obtains base adj mods age L n where
    "get_base_life_expectancy (country req) (sex req) = Inr base"
    "apply_lifestyle_modifiers base (bmi req) (smoking_status req) (alcohol_use req)
           (exercise_level req) = (adj, mods)"
    "age = py_max 0 (years_between (dob req) today)"
    "L = py_max adj (double (age + 1/4))"
    "n = rne (double (L * DAYS_PER_YEAR))"
    "today - dob req + 91 \<le> n" "n \<le> max 33602 (today - dob req + 91)"
    "predict today req =
     (if dob req + n \<le> MAXORDINAL
      then Inr \<lparr>estimated_death_date = dob req + n,
                base_life_expectancy_years = py_round2 base,
                adjusted_life_expectancy_years = py_round2 L,
                current_age_years = py_round2 age,
                modifiers_applied = mods\<rparr>
      else Inl OverflowError)"
    "0 \<le> age" "0 \<le> rne (age * 100)" "rne (age * 100) + 25 \<le> rne (L * 100)"
    "rne (L * 100) \<le> 2000000"
proof -
  define d where "d = today - dob req"
  have d: "0 \<le> d" "d \<le> 3652058"
    using v by (simp_all add: d_def request_valid_def date_valid_def MAXORDINAL_def)
  have sx: "sex req \<in> set [''male'', ''female'']" using v(1) by (simp add: request_valid_def)
  from get_base_valid_sex[OF sx, of "country req"] obtain base where
    g: "get_base_life_expectancy (country req) (sex req) = Inr base" by blast
  obtain adj mods where am: "apply_lifestyle_modifiers base (bmi req) (smoking_status req)
      (alcohol_use req) (exercise_level req) = (adj, mods)" by force
  have adj: "adj \<le> 92"
    using adjusted_upper[OF g, of "bmi req" "smoking_status req" "alcohol_use req" "exercise_level req"]
    by (simp add: am)
  define a1 where "a1 = double (double (of_int d) / DAYS_PER_YEAR)"
  define age where "age = py_max 0 (years_between (dob req) today)"
  define X where "X = double (age + 1/4)"
  define L where "L = py_max adj X"
  define n where "n = rne (double (L * DAYS_PER_YEAR))"
  define n0 where "n0 = rne (of_int (40000 * d) / 146097)"
  have age: "age = py_max 0 a1" by (simp add: age_def a1_def years_between_def d_def)
  note af = age_facts[OF d, folded a1_def]
  have age1: "age = a1" by (simp only: age af(5))
  have X: "X = double (py_max 0 (double (double (of_int d) / DAYS_PER_YEAR)) + 1/4)"
    by (simp only: X_def age a1_def)
  note eb = est_days_bounds[OF d adj, folded X, folded L_def, folded n_def]
  note ce = cents_of_age[OF d, folded X, folded a1_def, folded n0_def]
  have agenn: "0 \<le> age" by (simp only: age1 af(3))
  have c1: "rne (age * 100) = n0" by (simp only: age1 ce(1))
  have XL: "X \<le> L" by (simp add: L_def py_max_def)
  then have "rne (X * 100) \<le> rne (L * 100)" by (intro rne_mono) simp
  then have c2: "n0 + 25 \<le> rne (L * 100)" by (simp only: ce(2))
  have c3: "rne (L * 100) \<le> 2000000"
  proof (cases "adj < X")
    case True
    then have "L = X" by (simp add: L_def py_max_def)
    then show ?thesis using ce(2) ce(4) by simp
  next
    case False
    then have "L = adj" by (simp add: L_def py_max_def)
    moreover have "adj * 100 \<le> of_int 9200" using adj by simp
    from rne_mono[OF this] have "rne (adj * 100) \<le> 9200" by (simp only: rne_of_int)
    ultimately show ?thesis by simp
  qed
  have n1: "1 \<le> dob req + n" using eb(1) d v(1) by (simp add: request_valid_def date_valid_def)
  have p: "predict today req =
     (if dob req + n \<le> MAXORDINAL
      then Inr \<lparr>estimated_death_date = dob req + n,
                base_life_expectancy_years = py_round2 base,
                adjusted_life_expectancy_years = py_round2 L,
                current_age_years = py_round2 age,
                modifiers_applied = mods\<rparr>
      else Inl OverflowError)"
    using predict_result[OF v(3) g am age_def, of L n] n1 by (simp add: L_def X_def n_def)
  show ?thesis
    by (rule that[OF g am age_def _ n_def _ _ p agenn])
       (use eb c1 c2 c3 ce(3) in \<open>simp_all add: L_def X_def d_def\<close>)
qed

section \<open>The example of 1990\<close>

lemma ord_values:
  "ymd2ord 1990 1 1 = 726468" "ymd2ord 2068 1 1 = 754957" "ymd2ord 2067 12 2 = 754927"
  "ymd2ord 2024 1 1 = 738886" "ymd2ord 2026 11 4 = 739924" "ymd2ord 1963 1 29 = 716634"
  "ymd2ord 9999 12 31 = 3652059" "ymd2ord 1950 1 1 = 711858" "ymd2ord 2027 2 3 = 740015"
  "ord2ymd 754957 = (2068, 1, 1)" "ord2ymd 740015 = (2027, 2, 3)"
  by code_simp+

lemma days_78: "rne (double (78 * DAYS_PER_YEAR)) = 28489"
  unfolding DAYS_PER_YEAR_eq by code_simp

lemma round2_values:
  "py_round2 (149/2) = 149/2" "py_round2 78 = 78"
  "py_round2 (4728779608739021/70368744177664) = 4728779608739021/70368744177664"
  by code_simp+

lemma bmi_branch_22:
  "(if float_lt (Finite 22) (Finite (37/2)) then -2
    else if float_le (Finite (37/2)) (Finite 22) \<and> float_lt (Finite 22) (Finite 25) then 1/2
    else if float_le (Finite 25) (Finite 22) \<and> float_lt (Finite 22) (Finite 30) then -1/2
    else if float_le (Finite 30) (Finite 22) \<and> float_lt (Finite 22) (Finite 35) then -2
    else -4) = (1/2 :: rat)"
  by simp

lemma apply_1990:
  "apply_lifestyle_modifiers (149/2) (Finite 22) ''none'' ''none'' ''moderate''
     = (78, [''bmi'' \<mapsto> 1/2, ''smoking'' \<mapsto> 3/2, ''alcohol'' \<mapsto> 1/2, ''exercise'' \<mapsto> 1])"
proof -
  have "fst (apply_lifestyle_modifiers (149/2) (Finite 22) ''none'' ''none'' ''moderate'') = 78"
    unfolding adjusted_exact[OF usa_male] bmi_branch_22 none_values by simp
  moreover have "snd (apply_lifestyle_modifiers (149/2) (Finite 22) ''none'' ''none'' ''moderate'')
     = [''bmi'' \<mapsto> 1/2, ''smoking'' \<mapsto> 3/2, ''alcohol'' \<mapsto> 1/2, ''exercise'' \<mapsto> 1]"
    by (simp only: modifiers_map bmi_branch_22 none_values)
  ultimately show ?thesis by (simp add: prod_eq_iff)
qed

lemma predict_1990:
  assumes "726468 \<le> today"
    and "double (py_max 0 (years_between 726468 today) + 1/4) \<le> 78"
  shows "predict today \<lparr>dob = 726468, sex = ''male'', country = ''usa'', bmi = Finite 22,
            smoking_status = ''none'', alcohol_use = ''none'', exercise_level = ''moderate''\<rparr>
     = Inr \<lparr>estimated_death_date = 754957,
             base_life_expectancy_years = 149/2,
             adjusted_life_expectancy_years = 78,
             current_age_years = py_round2 (py_max 0 (years_between 726468 today)),
             modifiers_applied =
               [''bmi'' \<mapsto> 1/2, ''smoking'' \<mapsto> 3/2, ''alcohol'' \<mapsto> 1/2, ''exercise'' \<mapsto> 1]\<rparr>"
proof -
  let ?req = "\<lparr>dob = 726468, sex = ''male'', country = ''usa'', bmi = Finite 22,
            smoking_status = ''none'', alcohol_use = ''none'', exercise_level = ''moderate''\<rparr>"
  define age where "age = py_max 0 (years_between 726468 today)"
  have L: "78 = py_max 78 (double (age + 1/4))"
    using assms(2) by (simp add: py_max_def age_def)
  have n: "28489 = rne (double (78 * DAYS_PER_YEAR))" by (simp only: days_78)
  have "predict today ?req =
     (if 1 \<le> dob ?req + 28489 \<and> dob ?req + 28489 \<le> MAXORDINAL
      then Inr \<lparr>estimated_death_date = dob ?req + 28489,
                base_life_expectancy_years = py_round2 (149/2),
                adjusted_life_expectancy_years = py_round2 78,
                current_age_years = py_round2 age,
                modifiers_applied =
                  [''bmi'' \<mapsto> 1/2, ''smoking'' \<mapsto> 3/2, ''alcohol'' \<mapsto> 1/2, ''exercise'' \<mapsto> 1]\<rparr>
      else Inl OverflowError)"
    by (rule predict_result[where base = "149/2" and adj = 78 and L = 78])
       (use assms(1) usa_male apply_1990 L n in \<open>simp_all add: age_def\<close>)
  then show ?thesis by (simp add: MAXORDINAL_def round2_values age_def)
qed

lemma age_2024: "double (py_max 0 (years_between 726468 738886) + 1/4) \<le> 78"
  unfolding years_between_def DAYS_PER_YEAR_eq by code_simp

lemma age_2024_round: "py_round2 (py_max 0 (years_between 726468 738886)) = 34"
  unfolding years_between_def DAYS_PER_YEAR_eq by code_simp

text \<open>
  Claim C1, amended. For the request with \<^verbatim>\<open>dob = 1990-01-01\<close>, \<^verbatim>\<open>male\<close>,
  \<^verbatim>\<open>"usa"\<close>, \<^verbatim>\<open>bmi = 22\<close>, no smoking, no alcohol and moderate exercise, on every
  \<open>today\<close> from 1990-01-01 on with \<open>current_age + 0.25 \<le> 78.0\<close> (the float sum),
  \<^verbatim>\<open>predict\<close> returns the base 74.5, the modifiers \<open>+0.5, +1.5, +0.5, +1.0\<close>, the
  adjusted expectancy 78.0 and the date \<open>1990-01-01 + round(78.0 * 365.2425) = 1990-01-01 +
  28489\<close> days, which is 2068-01-01.
\<close>

theorem example_1990:
  assumes "ymd2ord 1990 1 1 \<le> today"
    and "double (py_max 0 (years_between (ymd2ord 1990 1 1) today) + 1/4) \<le> 78"
  shows "predict today \<lparr>dob = ymd2ord 1990 1 1, sex = ''male'', country = ''usa'',
            bmi = Finite 22, smoking_status = ''none'', alcohol_use = ''none'',
            exercise_level = ''moderate''\<rparr>
     = Inr \<lparr>estimated_death_date = ymd2ord 2068 1 1,
             base_life_expectancy_years = 149/2,
             adjusted_life_expectancy_years = 78,
             current_age_years = py_round2 (py_max 0 (years_between (ymd2ord 1990 1 1) today)),
             modifiers_applied =
               [''bmi'' \<mapsto> 1/2, ''smoking'' \<mapsto> 3/2, ''alcohol'' \<mapsto> 1/2, ''exercise'' \<mapsto> 1]\<rparr>
   \<and> rne (double (78 * DAYS_PER_YEAR)) = 28489
   \<and> ymd2ord 2068 1 1 = ymd2ord 1990 1 1 + 28489
   \<and> ord2ymd (ymd2ord 1990 1 1 + 28489) = (2068, 1, 1)"
  using assms predict_1990[of today] by (simp add: ord_values days_78)

theorem example_1990_witness:
  "ymd2ord 1990 1 1 \<le> ymd2ord 2024 1 1
   \<and> double (py_max 0 (years_between (ymd2ord 1990 1 1) (ymd2ord 2024 1 1)) + 1/4) \<le> 78
   \<and> predict (ymd2ord 2024 1 1) \<lparr>dob = ymd2ord 1990 1 1, sex = ''male'', country = ''usa'',
            bmi = Finite 22, smoking_status = ''none'', alcohol_use = ''none'',
            exercise_level = ''moderate''\<rparr>
     = Inr \<lparr>estimated_death_date = ymd2ord 2068 1 1,
             base_life_expectancy_years = 149/2,
             adjusted_life_expectancy_years = 78,
             current_age_years = 34,
             modifiers_applied =
               [''bmi'' \<mapsto> 1/2, ''smoking'' \<mapsto> 3/2, ''alcohol'' \<mapsto> 1/2, ''exercise'' \<mapsto> 1]\<rparr>"
proof -
  have h1: "ymd2ord 1990 1 1 \<le> ymd2ord 2024 1 1" by (simp add: ord_values)
  have h2: "double (py_max 0 (years_between (ymd2ord 1990 1 1) (ymd2ord 2024 1 1)) + 1/4) \<le> 78"
    by (simp only: ord_values age_2024)
  from example_1990[OF h1 h2] h1 h2 show ?thesis
    by (simp add: ord_values age_2024_round)
qed

text \<open>
  Claim C1, as stated, on 2024-01-01: the date returned is 2068-01-01, which is 30 days
  after the 2067-12-02 of the claim, not within one day of it.
\<close>

theorem example_1990_date_counterexample:
  "ymd2ord 1990 1 1 \<le> ymd2ord 2024 1 1
   \<and> double (py_max 0 (years_between (ymd2ord 1990 1 1) (ymd2ord 2024 1 1)) + 1/4) \<le> 78
   \<and> predict (ymd2ord 2024 1 1) \<lparr>dob = ymd2ord 1990 1 1, sex = ''male'', country = ''usa'',
            bmi = Finite 22, smoking_status = ''none'', alcohol_use = ''none'',
            exercise_level = ''moderate''\<rparr>
     = Inr \<lparr>estimated_death_date = ymd2ord 2068 1 1,
             base_life_expectancy_years = 149/2,
             adjusted_life_expectancy_years = 78,
             current_age_years = 34,
             modifiers_applied =
               [''bmi'' \<mapsto> 1/2, ''smoking'' \<mapsto> 3/2, ''alcohol'' \<mapsto> 1/2, ''exercise'' \<mapsto> 1]\<rparr>
   \<and> ymd2ord 2068 1 1 - ymd2ord 2067 12 2 = 30
   \<and> \<not> \<bar>ymd2ord 2068 1 1 - ymd2ord 2067 12 2\<bar> \<le> 1"
  using predict_1990[OF _ age_2024] by (simp add: ord_values age_2024 age_2024_round)

lemma py_round2_nonneg: "0 \<le> x \<Longrightarrow> 0 \<le> py_round2 x"
  unfolding py_round2_def by (intro double_nonneg divide_nonneg_nonneg) (simp_all add: rne_nonneg)

lemma predict_valid_summary:
  assumes "request_valid req" "date_valid today" "dob req \<le> today"
  shows "\<exists>n age L base mods.
      today - dob req + 91 \<le> n \<and> n \<le> max 33602 (today - dob req + 91)
    \<and> 0 \<le> age \<and> 0 \<le> rne (age * 100) \<and> rne (age * 100) + 25 \<le> rne (L * 100)
    \<and> rne (L * 100) \<le> 2000000
    \<and> mods = snd (apply_lifestyle_modifiers base (bmi req) (smoking_status req)
                     (alcohol_use req) (exercise_level req))
    \<and> predict today req =
       (if dob req + n \<le> MAXORDINAL
        then Inr \<lparr>estimated_death_date = dob req + n,
                  base_life_expectancy_years = py_round2 base,
                  adjusted_life_expectancy_years = py_round2 L,
                  current_age_years = py_round2 age,
                  modifiers_applied = mods\<rparr>
        else Inl OverflowError)"
proof (rule predict_valid_cases[OF assms])
  fix base adj mods age L n
  assume "apply_lifestyle_modifiers base (bmi req) (smoking_status req) (alcohol_use req)
           (exercise_level req) = (adj, mods)"
  then have m: "mods = snd (apply_lifestyle_modifiers base (bmi req) (smoking_status req)
                     (alcohol_use req) (exercise_level req))" by simp
  assume "today - dob req + 91 \<le> n" "n \<le> max 33602 (today - dob req + 91)"
    "predict today req =
     (if dob req + n \<le> MAXORDINAL
      then Inr \<lparr>estimated_death_date = dob req + n,
                base_life_expectancy_years = py_round2 base,
                adjusted_life_expectancy_years = py_round2 L,
                current_age_years = py_round2 age,
                modifiers_applied = mods\<rparr>
      else Inl OverflowError)"
    "0 \<le> age" "0 \<le> rne (age * 100)" "rne (age * 100) + 25 \<le> rne (L * 100)"
    "rne (L * 100) \<le> 2000000"
  with m show ?thesis by blast
qed

lemma predict_overflow:
  assumes "request_valid req" "date_valid today" "dob req \<le> today" "MAXORDINAL < today + 91"
  shows "predict today req = Inl OverflowError"
proof -
  from predict_valid_summary[OF assms(1-3)] obtain n age L base mods where
    n: "today - dob req + 91 \<le> n"
    and p: "predict today req = (if dob req + n \<le> MAXORDINAL
         then Inr \<lparr>estimated_death_date = dob req + n,
                base_life_expectancy_years = py_round2 base,
                adjusted_life_expectancy_years = py_round2 L,
                current_age_years = py_round2 age,
                modifiers_applied = mods\<rparr>
         else Inl OverflowError)"
    by blast
  from n assms(4) have "\<not> dob req + n \<le> MAXORDINAL" by linarith
  with p show ?thesis by simp
qed

lemma predict_in_range:
  assumes "request_valid req" "date_valid today" "dob req \<le> today"
    "today + 33602 \<le> MAXORDINAL"
  shows "\<exists>r. predict today req = Inr r"
proof -
  from predict_valid_summary[OF assms(1-3)] obtain n age L base mods where
    n: "n \<le> max 33602 (today - dob req + 91)"
    and p: "predict today req = (if dob req + n \<le> MAXORDINAL
         then Inr \<lparr>estimated_death_date = dob req + n,
                base_life_expectancy_years = py_round2 base,
                adjusted_life_expectancy_years = py_round2 L,
                current_age_years = py_round2 age,
                modifiers_applied = mods\<rparr>
         else Inl OverflowError)"
    by blast
  from n assms(3,4) have "dob req + n \<le> MAXORDINAL" by linarith
  with p show ?thesis by simp
qed

lemma predict_result_props:
  assumes "request_valid req" "date_valid today" "dob req \<le> today"
    and r: "predict today req = Inr r"
  shows "0 \<le> current_age_years r" "dob req \<le> estimated_death_date r"
    "today + 91 \<le> estimated_death_date r"
    "rne (current_age_years r * 100) + 25 \<le> rne (adjusted_life_expectancy_years r * 100)"
    "current_age_years r + 1/4 - 1/1000000000 \<le> adjusted_life_expectancy_years r"
    "dom (modifiers_applied r) = {''bmi'', ''smoking'', ''alcohol'', ''exercise''}"
proof -
  from predict_valid_summary[OF assms(1-3)] obtain n age L base mods where
    n: "today - dob req + 91 \<le> n"
    and a: "0 \<le> age" "0 \<le> rne (age * 100)" "rne (age * 100) + 25 \<le> rne (L * 100)"
      "rne (L * 100) \<le> 2000000"
    and m: "mods = snd (apply_lifestyle_modifiers base (bmi req) (smoking_status req)
                     (alcohol_use req) (exercise_level req))"
    and p: "predict today req = (if dob req + n \<le> MAXORDINAL
         then Inr \<lparr>estimated_death_date = dob req + n,
                base_life_expectancy_years = py_round2 base,
                adjusted_life_expectancy_years = py_round2 L,
                current_age_years = py_round2 age,
                modifiers_applied = mods\<rparr>
         else Inl OverflowError)"
    by blast
  from p r have e: "r = \<lparr>estimated_death_date = dob req + n,
                base_life_expectancy_years = py_round2 base,
                adjusted_life_expectancy_years = py_round2 L,
                current_age_years = py_round2 age,
                modifiers_applied = mods\<rparr>"
    by (simp split: if_splits)
  define A where "A = rne (L * 100)"
  define B where "B = rne (age * 100)"
  have AB: "0 \<le> B" "B + 25 \<le> A" "A \<le> 2000000" using a by (simp_all add: A_def B_def)
  then have A0: "0 \<le> A" and B2: "B \<le> 2000000" by linarith+
  have adj: "adjusted_life_expectancy_years r = double (of_int A / 100)"
    by (simp add: e py_round2_def A_def)
  have cur: "current_age_years r = double (of_int B / 100)"
    by (simp add: e py_round2_def B_def)
  show "0 \<le> current_age_years r" by (simp add: e py_round2_nonneg a(1))
  show "dob req \<le> estimated_death_date r" using n assms(3) by (simp add: e)
  show "today + 91 \<le> estimated_death_date r" using n by (simp add: e)
  show "rne (current_age_years r * 100) + 25 \<le> rne (adjusted_life_expectancy_years r * 100)"
    unfolding adj cur cents_roundtrip(1)[OF A0 AB(3)] cents_roundtrip(1)[OF AB(1) B2]
    by (rule AB(2))
  have "(of_int (B + 25) :: rat) \<le> of_int A" using AB(2) by (simp only: of_int_le_iff)
  then have "(of_int B :: rat) / 100 + 1/4 \<le> of_int A / 100" by simp
  with cents_roundtrip(2)[OF A0 AB(3)] cents_roundtrip(2)[OF AB(1) B2]
  show "current_age_years r + 1/4 - 1/1000000000 \<le> adjusted_life_expectancy_years r"
    unfolding adj cur by linarith
  show "dom (modifiers_applied r) = {''bmi'', ''smoking'', ''alcohol'', ''exercise''}"
    by (simp add: e m modifiers_dom)
qed

section \<open>Results of the handler\<close>

lemma predict_valid_outcomes:
  assumes "request_valid req" "date_valid today" "dob req \<le> today"
  shows "(\<exists>r. predict today req = Inr r) \<or> predict today req = Inl OverflowError"
proof -
  from predict_valid_summary[OF assms] obtain n age L base mods where
    p: "predict today req = (if dob req + n \<le> MAXORDINAL
         then Inr \<lparr>estimated_death_date = dob req + n,
                base_life_expectancy_years = py_round2 base,
                adjusted_life_expectancy_years = py_round2 L,
                current_age_years = py_round2 age,
                modifiers_applied = mods\<rparr>
         else Inl OverflowError)"
    by blast
  then show ?thesis by (cases "dob req + n \<le> MAXORDINAL") simp_all
qed

lemma predict_Inr_modifiers:
  assumes "predict today req = Inr r"
  shows "\<exists>base. modifiers_applied r = snd (apply_lifestyle_modifiers base (bmi req)
           (smoking_status req) (alcohol_use req) (exercise_level req))"
  using assms
  apply (auto simp: predict_def Let_def split: if_splits sum.splits prod.splits)
  by (metis snd_conv)

lemma keys_card: "card {''bmi'', ''smoking'', ''alcohol'', ''exercise''} = 4"
  by simp

text \<open>
  Claim C9. For every input the breakdown returned by \<^verbatim>\<open>apply_lifestyle_modifiers\<close>
  has exactly the four keys \<^verbatim>\<open>bmi\<close>, \<^verbatim>\<open>smoking\<close>, \<^verbatim>\<open>alcohol\<close>,
  \<^verbatim>\<open>exercise\<close>, and so has the field \<^verbatim>\<open>modifiers_applied\<close> of every response of
  \<^verbatim>\<open>predict\<close>.
\<close>

theorem modifiers_have_four_keys:
  "dom (snd (apply_lifestyle_modifiers base b s a e)) = {''bmi'', ''smoking'', ''alcohol'', ''exercise''}
   \<and> card (dom (snd (apply_lifestyle_modifiers base b s a e))) = 4
   \<and> (\<forall>r. predict today req = Inr r \<longrightarrow>
         dom (modifiers_applied r) = {''bmi'', ''smoking'', ''alcohol'', ''exercise''}
       \<and> card (dom (modifiers_applied r)) = 4)"
proof (intro conjI allI impI)
  show "dom (snd (apply_lifestyle_modifiers base b s a e)) = {''bmi'', ''smoking'', ''alcohol'', ''exercise''}"
    by (rule modifiers_dom)
  then show "card (dom (snd (apply_lifestyle_modifiers base b s a e))) = 4"
    by (simp only: keys_card)
next
  fix r assume "predict today req = Inr r"
  from predict_Inr_modifiers[OF this] obtain base' where
    "modifiers_applied r = snd (apply_lifestyle_modifiers base' (bmi req)
           (smoking_status req) (alcohol_use req) (exercise_level req))" by blast
  then show d: "dom (modifiers_applied r) = {''bmi'', ''smoking'', ''alcohol'', ''exercise''}"
    by (simp only: modifiers_dom)
  show "card (dom (modifiers_applied r)) = 4" by (simp only: d keys_card)
qed

theorem modifiers_have_four_keys_witness:
  "predict 738886 \<lparr>dob = 726468, sex = ''male'', country = ''usa'', bmi = Finite 22,
            smoking_status = ''none'', alcohol_use = ''none'', exercise_level = ''moderate''\<rparr>
     = Inr \<lparr>estimated_death_date = 754957,
             base_life_expectancy_years = 149/2,
             adjusted_life_expectancy_years = 78,
             current_age_years = 34,
             modifiers_applied =
               [''bmi'' \<mapsto> 1/2, ''smoking'' \<mapsto> 3/2, ''alcohol'' \<mapsto> 1/2, ''exercise'' \<mapsto> 1]\<rparr>
   \<and> dom [''bmi'' \<mapsto> 1/2 :: rat, ''smoking'' \<mapsto> 3/2, ''alcohol'' \<mapsto> 1/2, ''exercise'' \<mapsto> 1]
       = {''bmi'', ''smoking'', ''alcohol'', ''exercise''}
   \<and> card (dom [''bmi'' \<mapsto> 1/2 :: rat, ''smoking'' \<mapsto> 3/2, ''alcohol'' \<mapsto> 1/2, ''exercise'' \<mapsto> 1]) = 4"
proof -
  let ?T = "738886 :: int"
  let ?req = "\<lparr>dob = 726468, sex = ''male'', country = ''usa'', bmi = Finite 22,
            smoking_status = ''none'', alcohol_use = ''none'', exercise_level = ''moderate''\<rparr>"
  let ?r = "\<lparr>estimated_death_date = 754957,
             base_life_expectancy_years = 149/2,
             adjusted_life_expectancy_years = 78,
             current_age_years = 34,
             modifiers_applied =
               [''bmi'' \<mapsto> 1/2, ''smoking'' \<mapsto> 3/2, ''alcohol'' \<mapsto> 1/2, ''exercise'' \<mapsto> (1::rat)]\<rparr>"
  have p: "predict ?T ?req = Inr ?r"
    using predict_1990[OF _ age_2024] by (simp add: age_2024_round)
  from modifiers_have_four_keys[of 70 "Finite 22" "''none''" "''none''" "''moderate''" ?T ?req]
  have "\<forall>r. predict ?T ?req = Inr r \<longrightarrow>
         dom (modifiers_applied r) = {''bmi'', ''smoking'', ''alcohol'', ''exercise''}
       \<and> card (dom (modifiers_applied r)) = 4" by blast
  with p have "dom (modifiers_applied ?r) = {''bmi'', ''smoking'', ''alcohol'', ''exercise''}
       \<and> card (dom (modifiers_applied ?r)) = 4" by blast
  with p show ?thesis by simp
qed

text \<open>
  Claim C3, amended. For every valid request with \<open>dob \<le> today\<close>: when \<open>today\<close> is
  at least 33602 days (92 years) before the last date, 9999-12-31, \<^verbatim>\<open>predict\<close> returns a
  result; on any \<open>today\<close> it returns a result or raises \<^verbatim>\<open>OverflowError\<close>; and every
  result has \<open>current_age_years \<ge> 0\<close>, an estimated date on or after \<open>dob\<close> and
  strictly after \<open>today\<close>.
\<close>

theorem estimated_date_after_today:
  assumes "request_valid req" "date_valid today" "dob req \<le> today"
  shows "(today + 33602 \<le> MAXORDINAL \<longrightarrow> (\<exists>r. predict today req = Inr r))
       \<and> ((\<exists>r. predict today req = Inr r) \<or> predict today req = Inl OverflowError)
       \<and> (\<forall>r. predict today req = Inr r \<longrightarrow>
             0 \<le> current_age_years r \<and> dob req \<le> estimated_death_date r
           \<and> today < estimated_death_date r)"
proof (intro conjI allI impI)
  assume "today + 33602 \<le> MAXORDINAL"
  then show "\<exists>r. predict today req = Inr r" by (rule predict_in_range[OF assms])
next
  show "(\<exists>r. predict today req = Inr r) \<or> predict today req = Inl OverflowError"
    by (rule predict_valid_outcomes[OF assms])
next
  fix r assume r: "predict today req = Inr r"
  note pp = predict_result_props[OF assms r]
  show "0 \<le> current_age_years r" by (rule pp(1))
  show "dob req \<le> estimated_death_date r" by (rule pp(2))
  show "today < estimated_death_date r" using pp(3) by linarith
qed

lemma request_1990_valid:
  "request_valid \<lparr>dob = 726468, sex = ''male'', country = ''usa'', bmi = Finite 22,
            smoking_status = ''none'', alcohol_use = ''none'', exercise_level = ''moderate''\<rparr>"
  by (simp add: request_valid_def date_valid_def MAXORDINAL_def)

theorem estimated_date_after_today_witness:
  "request_valid \<lparr>dob = 726468, sex = ''male'', country = ''usa'', bmi = Finite 22,
            smoking_status = ''none'', alcohol_use = ''none'', exercise_level = ''moderate''\<rparr>
   \<and> date_valid 738886 \<and> (726468::int) \<le> 738886 \<and> 738886 + 33602 \<le> MAXORDINAL
   \<and> (\<exists>r. predict 738886 \<lparr>dob = 726468, sex = ''male'', country = ''usa'', bmi = Finite 22,
            smoking_status = ''none'', alcohol_use = ''none'', exercise_level = ''moderate''\<rparr> = Inr r
        \<and> 0 \<le> current_age_years r \<and> 726468 \<le> estimated_death_date r
        \<and> 738886 < estimated_death_date r)"
proof -
  let ?req = "\<lparr>dob = 726468, sex = ''male'', country = ''usa'', bmi = Finite 22,
            smoking_status = ''none'', alcohol_use = ''none'', exercise_level = ''moderate''\<rparr>"
  have v: "request_valid ?req" by (rule request_1990_valid)
  have t: "date_valid 738886" by (simp add: date_valid_def MAXORDINAL_def)
  have le: "dob ?req \<le> 738886" by simp
  have rg: "738886 + 33602 \<le> MAXORDINAL" by (simp add: MAXORDINAL_def)
  note th = estimated_date_after_today[OF v t le]
  from th rg obtain r where r: "predict 738886 ?req = Inr r" by blast
  with th have "0 \<le> current_age_years r \<and> dob ?req \<le> estimated_death_date r
           \<and> 738886 < estimated_death_date r" by blast
  with r v t rg show ?thesis by auto
qed

section \<open>The buffer invariant and the rejection of future dates\<close>

lemma key_India: "lower (strip ''India'') = ''india''" by code_simp

lemma india_male: "get_base_life_expectancy ''India'' ''male'' = Inr (4728779608739021/70368744177664)"
  by (simp add: get_base_life_expectancy_def key_India LIFE_TABLE_eval dict_item_def)

lemma apply_india:
  "apply_lifestyle_modifiers (4728779608739021/70368744177664) (Finite 40) ''heavy'' ''heavy''
      ''sedentary''
     = (3602879701896397/70368744177664,
        [''bmi'' \<mapsto> - 4, ''smoking'' \<mapsto> - 7, ''alcohol'' \<mapsto> - 3, ''exercise'' \<mapsto> - 2])"
proof -
  have "fst (apply_lifestyle_modifiers (4728779608739021/70368744177664) (Finite 40) ''heavy''
          ''heavy'' ''sedentary'') = 3602879701896397/70368744177664"
    unfolding adjusted_exact[OF india_male] bmi_branch_40 heavy_values by simp
  moreover have "snd (apply_lifestyle_modifiers (4728779608739021/70368744177664) (Finite 40)
          ''heavy'' ''heavy'' ''sedentary'')
     = [''bmi'' \<mapsto> - 4, ''smoking'' \<mapsto> - 7, ''alcohol'' \<mapsto> - 3, ''exercise'' \<mapsto> - 2]"
    by (simp only: modifiers_map bmi_branch_40 heavy_values)
  ultimately show ?thesis by (simp add: prod_eq_iff)
qed

lemma india_values:
  "py_max 0 (years_between 716634 739924) = 8974246161921433/140737488355328"
  "double (8974246161921433/140737488355328 + 1/4) = 1126178816751283/17592186044416"
  "py_max (3602879701896397/70368744177664) (1126178816751283/17592186044416)
     = 1126178816751283/17592186044416"
  "rne (double (1126178816751283/17592186044416 * DAYS_PER_YEAR)) = 23381"
  "py_round2 (1126178816751283/17592186044416) = 4505007002254049/70368744177664"
  "py_round2 (8974246161921433/140737488355328) = 8974829632419267/140737488355328"
  "double (8974829632419267/140737488355328 + 1/4) = 2252503501127025/35184372088832"
  unfolding years_between_def DAYS_PER_YEAR_eq by code_simp+

lemma predict_india:
  "predict 739924 \<lparr>dob = 716634, sex = ''male'', country = ''India'', bmi = Finite 40,
            smoking_status = ''heavy'', alcohol_use = ''heavy'', exercise_level = ''sedentary''\<rparr>
     = Inr \<lparr>estimated_death_date = 740015,
             base_life_expectancy_years = 4728779608739021/70368744177664,
             adjusted_life_expectancy_years = 4505007002254049/70368744177664,
             current_age_years = 8974829632419267/140737488355328,
             modifiers_applied =
               [''bmi'' \<mapsto> - 4, ''smoking'' \<mapsto> - 7, ''alcohol'' \<mapsto> - 3, ''exercise'' \<mapsto> - 2]\<rparr>"
proof -
  let ?req = "\<lparr>dob = 716634, sex = ''male'', country = ''India'', bmi = Finite 40,
            smoking_status = ''heavy'', alcohol_use = ''heavy'', exercise_level = ''sedentary''\<rparr>"
  have a1: "dob ?req \<le> 739924" by simp
  have a2: "get_base_life_expectancy (country ?req) (sex ?req)
              = Inr (4728779608739021/70368744177664)" by (simp add: india_male)
  have a3: "apply_lifestyle_modifiers (4728779608739021/70368744177664) (bmi ?req)
              (smoking_status ?req) (alcohol_use ?req) (exercise_level ?req)
     = (3602879701896397/70368744177664,
        [''bmi'' \<mapsto> - 4, ''smoking'' \<mapsto> - 7, ''alcohol'' \<mapsto> - 3, ''exercise'' \<mapsto> - 2])"
    by (simp add: apply_india)
  have a4: "8974246161921433/140737488355328 = py_max 0 (years_between (dob ?req) 739924)"
    by (simp add: india_values(1))
  have a5: "1126178816751283/17592186044416
     = py_max (3602879701896397/70368744177664) (double (8974246161921433/140737488355328 + 1/4))"
    by (simp only: india_values)
  have a6: "23381 = rne (double (1126178816751283/17592186044416 * DAYS_PER_YEAR))"
    by (simp only: india_values)
  note predict_result[OF a1 a2 a3 a4 a5 a6]
  then show ?thesis by (simp add: MAXORDINAL_def round2_values india_values)
qed

text \<open>
  Claim C2, as stated, for a man born on 1963-01-29, heavy smoker and drinker, sedentary,
  \<^verbatim>\<open>bmi = 40\<close>, in India, on 2026-11-04. The adjusted expectancy 51.2 is below his
  age, so the buffer applies: the response has \<^verbatim>\<open>current_age_years = 63.77\<close> and
  \<^verbatim>\<open>adjusted_life_expectancy_years = 64.02\<close>, each the float nearest to its decimal.
  The float 64.02 is smaller than the float 63.77 plus 0.25, in exact arithmetic and in
  float arithmetic: the comparison \<^verbatim>\<open>adjusted >= current_age + 0.25\<close> is false.
\<close>

theorem buffer_invariant_float_counterexample:
  "request_valid \<lparr>dob = ymd2ord 1963 1 29, sex = ''male'', country = ''India'', bmi = Finite 40,
            smoking_status = ''heavy'', alcohol_use = ''heavy'', exercise_level = ''sedentary''\<rparr>
   \<and> date_valid (ymd2ord 2026 11 4) \<and> ymd2ord 1963 1 29 \<le> ymd2ord 2026 11 4
   \<and> predict (ymd2ord 2026 11 4)
        \<lparr>dob = ymd2ord 1963 1 29, sex = ''male'', country = ''India'', bmi = Finite 40,
            smoking_status = ''heavy'', alcohol_use = ''heavy'', exercise_level = ''sedentary''\<rparr>
     = Inr \<lparr>estimated_death_date = ymd2ord 2027 2 3,
             base_life_expectancy_years = 4728779608739021/70368744177664,
             adjusted_life_expectancy_years = 4505007002254049/70368744177664,
             current_age_years = 8974829632419267/140737488355328,
             modifiers_applied =
               [''bmi'' \<mapsto> - 4, ''smoking'' \<mapsto> - 7, ''alcohol'' \<mapsto> - 3, ''exercise'' \<mapsto> - 2]\<rparr>
   \<and> (4505007002254049/70368744177664 :: rat) = double (6402/100)
   \<and> (8974829632419267/140737488355328 :: rat) = double (6377/100)
   \<and> (4505007002254049/70368744177664 :: rat) < 8974829632419267/140737488355328 + 1/4
   \<and> (4505007002254049/70368744177664 :: rat) < double (8974829632419267/140737488355328 + 1/4)"
proof -
  have v: "request_valid \<lparr>dob = ymd2ord 1963 1 29, sex = ''male'', country = ''India'',
            bmi = Finite 40, smoking_status = ''heavy'', alcohol_use = ''heavy'',
            exercise_level = ''sedentary''\<rparr>"
    by (simp add: ord_values request_valid_def date_valid_def MAXORDINAL_def)
  have t: "date_valid (ymd2ord 2026 11 4)"
    by (simp add: ord_values date_valid_def MAXORDINAL_def)
  have le: "ymd2ord 1963 1 29 \<le> ymd2ord 2026 11 4" by (simp add: ord_values)
  have p: "predict (ymd2ord 2026 11 4)
        \<lparr>dob = ymd2ord 1963 1 29, sex = ''male'', country = ''India'', bmi = Finite 40,
            smoking_status = ''heavy'', alcohol_use = ''heavy'', exercise_level = ''sedentary''\<rparr>
     = Inr \<lparr>estimated_death_date = ymd2ord 2027 2 3,
             base_life_expectancy_years = 4728779608739021/70368744177664,
             adjusted_life_expectancy_years = 4505007002254049/70368744177664,
             current_age_years = 8974829632419267/140737488355328,
             modifiers_applied =
               [''bmi'' \<mapsto> - 4, ''smoking'' \<mapsto> - 7, ''alcohol'' \<mapsto> - 3, ''exercise'' \<mapsto> - 2]\<rparr>"
    by (simp only: ord_values predict_india)
  have c1: "(4505007002254049/70368744177664 :: rat) = double (6402/100)" by code_simp
  have c2: "(8974829632419267/140737488355328 :: rat) = double (6377/100)" by code_simp
  have c3: "(4505007002254049/70368744177664 :: rat) < 8974829632419267/140737488355328 + 1/4"
    by simp
  have c4: "(4505007002254049/70368744177664 :: rat)
              < double (8974829632419267/140737488355328 + 1/4)"
    by code_simp
  show ?thesis by (intro conjI v t le p c1 c2 c3 c4)
qed

text \<open>
  Claim C2, amended. For every valid request with \<open>dob \<le> today\<close> a result is returned
  whenever \<open>today\<close> is at least 33602 days before 9999-12-31, and every result
  satisfies the buffer invariant on the two-decimal numbers that the two fields are rounded
  to: in hundredths of a year, the adjusted expectancy is at least the current age plus 25.
  As floats, \<open>adjusted \<ge> current_age + 0.25 - 10^-9\<close>.
\<close>

theorem buffer_invariant_hundredths:
  assumes "request_valid req" "date_valid today" "dob req \<le> today"
  shows "(today + 33602 \<le> MAXORDINAL \<longrightarrow> (\<exists>r. predict today req = Inr r))
       \<and> (\<forall>r. predict today req = Inr r \<longrightarrow>
             rne (current_age_years r * 100) + 25 \<le> rne (adjusted_life_expectancy_years r * 100)
           \<and> current_age_years r + 1/4 - 1/1000000000 \<le> adjusted_life_expectancy_years r)"
proof (intro conjI allI impI)
  assume "today + 33602 \<le> MAXORDINAL"
  then show "\<exists>r. predict today req = Inr r" by (rule predict_in_range[OF assms])
next
  fix r assume r: "predict today req = Inr r"
  note pp = predict_result_props[OF assms r]
  show "rne (current_age_years r * 100) + 25 \<le> rne (adjusted_life_expectancy_years r * 100)"
    by (rule pp(4))
  show "current_age_years r + 1/4 - 1/1000000000 \<le> adjusted_life_expectancy_years r"
    by (rule pp(5))
qed

lemma request_india_valid:
  "request_valid \<lparr>dob = 716634, sex = ''male'', country = ''India'', bmi = Finite 40,
            smoking_status = ''heavy'', alcohol_use = ''heavy'', exercise_level = ''sedentary''\<rparr>"
  by (simp add: request_valid_def date_valid_def MAXORDINAL_def)

theorem buffer_invariant_hundredths_witness:
  "request_valid \<lparr>dob = 716634, sex = ''male'', country = ''India'', bmi = Finite 40,
            smoking_status = ''heavy'', alcohol_use = ''heavy'', exercise_level = ''sedentary''\<rparr>
   \<and> date_valid 739924 \<and> (716634::int) \<le> 739924 \<and> 739924 + 33602 \<le> MAXORDINAL
   \<and> (\<exists>r. predict 739924 \<lparr>dob = 716634, sex = ''male'', country = ''India'', bmi = Finite 40,
            smoking_status = ''heavy'', alcohol_use = ''heavy'', exercise_level = ''sedentary''\<rparr> = Inr r
        \<and> rne (current_age_years r * 100) + 25 \<le> rne (adjusted_life_expectancy_years r * 100)
        \<and> current_age_years r + 1/4 - 1/1000000000 \<le> adjusted_life_expectancy_years r)"
proof -
  let ?req = "\<lparr>dob = 716634, sex = ''male'', country = ''India'', bmi = Finite 40,
            smoking_status = ''heavy'', alcohol_use = ''heavy'', exercise_level = ''sedentary''\<rparr>"
  have v: "request_valid ?req" by (rule request_india_valid)
  have t: "date_valid 739924" by (simp add: date_valid_def MAXORDINAL_def)
  have le: "dob ?req \<le> 739924" by simp
  have rg: "739924 + 33602 \<le> MAXORDINAL" by (simp add: MAXORDINAL_def)
  note th = buffer_invariant_hundredths[OF v t le]
  from th rg obtain r where r: "predict 739924 ?req = Inr r" by blast
  with th have "rne (current_age_years r * 100) + 25 \<le> rne (adjusted_life_expectancy_years r * 100)
        \<and> current_age_years r + 1/4 - 1/1000000000 \<le> adjusted_life_expectancy_years r" by blast
  with r v t rg show ?thesis by auto
qed

text \<open>
  Claim C3, as stated, on \<open>today\<close> = 9999-12-31 for a woman born on 1950-01-01: the
  estimated date would lie after the last date of \<^verbatim>\<open>datetime.date\<close>, so adding the
  \<^verbatim>\<open>timedelta\<close> raises \<^verbatim>\<open>OverflowError\<close> and no estimated date is returned.
\<close>

theorem estimated_date_overflow_counterexample:
  "request_valid \<lparr>dob = ymd2ord 1950 1 1, sex = ''female'', country = ''Japan'', bmi = Finite 22,
            smoking_status = ''none'', alcohol_use = ''none'', exercise_level = ''high''\<rparr>
   \<and> date_valid (ymd2ord 9999 12 31) \<and> ymd2ord 1950 1 1 \<le> ymd2ord 9999 12 31
   \<and> predict (ymd2ord 9999 12 31)
        \<lparr>dob = ymd2ord 1950 1 1, sex = ''female'', country = ''Japan'', bmi = Finite 22,
            smoking_status = ''none'', alcohol_use = ''none'', exercise_level = ''high''\<rparr>
      = Inl OverflowError"
proof -
  let ?req = "\<lparr>dob = 711858, sex = ''female'', country = ''Japan'', bmi = Finite 22,
            smoking_status = ''none'', alcohol_use = ''none'', exercise_level = ''high''\<rparr>"
  have v: "request_valid ?req" by (simp add: request_valid_def date_valid_def MAXORDINAL_def)
  have t: "date_valid 3652059" by (simp add: date_valid_def MAXORDINAL_def)
  have le: "dob ?req \<le> 3652059" by simp
  have o: "MAXORDINAL < 3652059 + 91" by (simp add: MAXORDINAL_def)
  from predict_overflow[OF v t le o] v t show ?thesis by (simp add: ord_values)
qed

text \<open>
  Claim C6, amended. For a valid request, \<^verbatim>\<open>predict\<close> raises the
  \<^verbatim>\<open>HTTPException\<close> with status 400 and the detail "Date of birth cannot be in the
  future" if and only if \<open>dob\<close> is strictly after \<open>today\<close>, and then no result is
  produced. When \<open>dob \<le> today\<close> and \<open>today\<close> is at least 33602 days (92 years)
  before 9999-12-31, a full result is produced and no error is raised; nearer to the last
  date the only other outcome is the \<^verbatim>\<open>OverflowError\<close> of the date addition.
\<close>

theorem future_dob_rejected:
  assumes "request_valid req" "date_valid today"
  shows "(predict today req = Inl (HTTPException 400 ''Date of birth cannot be in the future'')
            \<longleftrightarrow> today < dob req)
       \<and> (today < dob req \<longrightarrow> (\<forall>r. predict today req \<noteq> Inr r))
       \<and> (dob req \<le> today \<and> today + 33602 \<le> MAXORDINAL \<longrightarrow> (\<exists>r. predict today req = Inr r))
       \<and> (dob req \<le> today \<longrightarrow>
             (\<exists>r. predict today req = Inr r) \<or> predict today req = Inl OverflowError)"
proof (intro conjI impI allI)
  show "predict today req = Inl (HTTPException 400 ''Date of birth cannot be in the future'')
            \<longleftrightarrow> today < dob req"
  proof
    assume h: "predict today req = Inl (HTTPException 400 ''Date of birth cannot be in the future'')"
    show "today < dob req"
    proof (rule ccontr)
      assume "\<not> today < dob req"
      then have "dob req \<le> today" by simp
      from predict_valid_outcomes[OF assms this] h show False by auto
    qed
  next
    assume "today < dob req"
    then show "predict today req = Inl (HTTPException 400 ''Date of birth cannot be in the future'')"
      by (rule predict_future)
  qed
next
  fix r assume "today < dob req"
  from predict_future[OF this] show "predict today req \<noteq> Inr r" by simp
next
  assume "dob req \<le> today \<and> today + 33602 \<le> MAXORDINAL"
  then show "\<exists>r. predict today req = Inr r" using predict_in_range[OF assms] by blast
next
  assume "dob req \<le> today"
  then show "(\<exists>r. predict today req = Inr r) \<or> predict today req = Inl OverflowError"
    by (rule predict_valid_outcomes[OF assms])
qed

theorem future_dob_rejected_witness:
  "request_valid \<lparr>dob = 726468, sex = ''male'', country = ''usa'', bmi = Finite 22,
            smoking_status = ''none'', alcohol_use = ''none'', exercise_level = ''moderate''\<rparr>
   \<and> date_valid 738886 \<and> date_valid 700000
   \<and> (726468::int) \<le> 738886 \<and> 738886 + 33602 \<le> MAXORDINAL \<and> (700000::int) < 726468
   \<and> (\<exists>r. predict 738886 \<lparr>dob = 726468, sex = ''male'', country = ''usa'', bmi = Finite 22,
            smoking_status = ''none'', alcohol_use = ''none'', exercise_level = ''moderate''\<rparr> = Inr r)
   \<and> predict 700000 \<lparr>dob = 726468, sex = ''male'', country = ''usa'', bmi = Finite 22,
            smoking_status = ''none'', alcohol_use = ''none'', exercise_level = ''moderate''\<rparr>
       = Inl (HTTPException 400 ''Date of birth cannot be in the future'')"
proof -
  let ?req = "\<lparr>dob = 726468, sex = ''male'', country = ''usa'', bmi = Finite 22,
            smoking_status = ''none'', alcohol_use = ''none'', exercise_level = ''moderate''\<rparr>"
  have v: "request_valid ?req" by (rule request_1990_valid)
  have t1: "date_valid 738886" and t2: "date_valid 700000"
    by (simp_all add: date_valid_def MAXORDINAL_def)
  have rg: "dob ?req \<le> 738886 \<and> 738886 + 33602 \<le> MAXORDINAL" by (simp add: MAXORDINAL_def)
  have fu: "700000 < dob ?req" by simp
  from future_dob_rejected[OF v t1] rg have 1: "\<exists>r. predict 738886 ?req = Inr r" by blast
  from future_dob_rejected[OF v t2] fu
  have 2: "predict 700000 ?req = Inl (HTTPException 400 ''Date of birth cannot be in the future'')"
    by blast
  from 1 2 v t1 t2 rg show ?thesis by simp
qed

text \<open>
  Claim C6, as stated, for a request with \<open>dob = today\<close> = 9999-12-31: \<open>dob\<close> is not
  after \<open>today\<close>, yet an error is raised and no result is produced.
\<close>

theorem dob_today_overflow_counterexample:
  "request_valid \<lparr>dob = ymd2ord 9999 12 31, sex = ''male'', country = ''usa'', bmi = Finite 22,
            smoking_status = ''none'', alcohol_use = ''none'', exercise_level = ''moderate''\<rparr>
   \<and> date_valid (ymd2ord 9999 12 31) \<and> \<not> ymd2ord 9999 12 31 < ymd2ord 9999 12 31
   \<and> predict (ymd2ord 9999 12 31)
        \<lparr>dob = ymd2ord 9999 12 31, sex = ''male'', country = ''usa'', bmi = Finite 22,
            smoking_status = ''none'', alcohol_use = ''none'', exercise_level = ''moderate''\<rparr>
      = Inl OverflowError"
proof -
  let ?req = "\<lparr>dob = 3652059, sex = ''male'', country = ''usa'', bmi = Finite 22,
            smoking_status = ''none'', alcohol_use = ''none'', exercise_level = ''moderate''\<rparr>"
  have v: "request_valid ?req" by (simp add: request_valid_def date_valid_def MAXORDINAL_def)
  have t: "date_valid 3652059" by (simp add: date_valid_def MAXORDINAL_def)
  have le: "dob ?req \<le> 3652059" by simp
  have o: "MAXORDINAL < 3652059 + 91" by (simp add: MAXORDINAL_def)
  from predict_overflow[OF v t le o] v t show ?thesis by (simp add: ord_values)
qed

end
